theory Spec2Isabelle
  imports Complex_Main "HOL-Library.Log_Nat" "HOL-Library.Sublist"
begin

section \<open>Python values used by the server\<close>

subsection \<open>Floats\<close>

text \<open>
  A Python float is an IEEE binary64 number. It is modelled by the rational number it
  denotes; every operation computes the exact result and rounds it to the nearest
  number with a 53-bit significand, ties to the even significand. The exponent range is
  not modelled: every float the server computes is zero or has a magnitude between
  \<open>2 powi (- 55)\<close> and \<open>2 powi 16\<close>, far from overflow and from the subnormal numbers.
\<close>

definition round_half_even :: "rat \<Rightarrow> int" where
  "round_half_even q =
     (let f = \<lfloor>q\<rfloor>; d = q - of_int f in
      if d < 1/2 then f
      else if 1/2 < d then f + 1
      else if even f then f else f + 1)"

text \<open>
  \<open>ilog2 x\<close> is the binary exponent \<open>k\<close> of a positive \<open>x\<close>, the one with
  \<open>2 powi k \<le> x < 2 powi (k + 1)\<close>.
\<close>

definition ilog2 :: "rat \<Rightarrow> int" where
  "ilog2 x =
     (case quotient_of x of (p, q) \<Rightarrow>
        let k = bitlen p - bitlen q in if 2 powi k \<le> x then k else k - 1)"

definition binary64 :: "rat \<Rightarrow> rat" where
  "binary64 x =
     (if x = 0 then 0
      else let e = ilog2 \<bar>x\<bar> - 52
           in of_int (round_half_even (x / 2 powi e)) * 2 powi e)"

text \<open>A decimal literal such as \<open>4.3\<close> denotes the float nearest to the decimal.\<close>

definition float_lit :: "rat \<Rightarrow> rat" where
  "float_lit d = binary64 d"

definition float_of_int :: "int \<Rightarrow> rat" where
  "float_of_int n = binary64 (of_int n)"

definition float_add :: "rat \<Rightarrow> rat \<Rightarrow> rat" where
  "float_add a b = binary64 (a + b)"

definition float_sub :: "rat \<Rightarrow> rat \<Rightarrow> rat" where
  "float_sub a b = binary64 (a - b)"

definition float_mul :: "rat \<Rightarrow> rat \<Rightarrow> rat" where
  "float_mul a b = binary64 (a * b)"

text \<open>\<open>int(x)\<close> on a float truncates towards zero.\<close>

definition py_int :: "rat \<Rightarrow> int" where
  "py_int x = (if 0 \<le> x then \<lfloor>x\<rfloor> else \<lceil>x\<rceil>)"

text \<open>
  \<open>round(x, ndigits)\<close> on a float: the exact value of \<open>x\<close> is rounded to \<open>ndigits\<close>
  decimal places, ties to the even digit, and the decimal is converted back to a float.
\<close>

definition py_round :: "rat \<Rightarrow> nat \<Rightarrow> rat" where
  "py_round x ndigits = binary64 (of_int (round_half_even (x * 10 ^ ndigits)) / 10 ^ ndigits)"

subsection \<open>The random source\<close>

text \<open>
  The module-level generator of \<open>random\<close> is an explicit state: the stream of raw
  integers it is still to produce. Every library call consumes one raw integer.
  \<open>randint a b\<close> returns an integer \<open>N\<close> with \<open>a \<le> N \<le> b\<close>, \<open>random()\<close> a float
  \<open>k / 2 ^ 53\<close> in \<open>[0, 1)\<close>, and \<open>uniform a b\<close> is \<open>a + (b - a) * random()\<close> in float
  arithmetic, as the library computes it.
\<close>

type_synonym rng = "nat \<Rightarrow> int"

definition draw :: "rng \<Rightarrow> int \<times> rng" where
  "draw g = (g 0, \<lambda>i. g (Suc i))"

text \<open>\<open>advance n g\<close> is the source \<open>g\<close> after \<open>n\<close> raw integers have been taken from it.\<close>

definition advance :: "nat \<Rightarrow> rng \<Rightarrow> rng" where
  "advance n g = (\<lambda>i. g (i + n))"

definition randint :: "int \<Rightarrow> int \<Rightarrow> rng \<Rightarrow> int \<times> rng" where
  "randint a b g = (case draw g of (r, g') \<Rightarrow> (a + r mod (b - a + 1), g'))"

definition random :: "rng \<Rightarrow> rat \<times> rng" where
  "random g = (case draw g of (r, g') \<Rightarrow> (of_int (r mod 2 ^ 53) / 2 ^ 53, g'))"

definition uniform :: "rat \<Rightarrow> rat \<Rightarrow> rng \<Rightarrow> rat \<times> rng" where
  "uniform a b g =
     (case random g of (u, g') \<Rightarrow> (float_add a (float_mul (float_sub b a) u), g'))"

subsection \<open>The clock\<close>

text \<open>
  A naive \<open>datetime\<close> is a day number (the proleptic Gregorian ordinal) and the
  microsecond within that day. Subtracting \<open>timedelta(days=n)\<close> moves the day number
  and keeps the time of day; the library's range of years 1 to 9999 is not modelled, a
  clock reading being more than 90 days away from either end. The two formatting methods
  the server calls belong to the library and the platform's locale; they are parameters
  of the handlers.
\<close>

record datetime =
  ordinal :: int
  microsecond_of_day :: nat

definition minus_days :: "datetime \<Rightarrow> int \<Rightarrow> datetime" where
  "minus_days t n = t\<lparr>ordinal := ordinal t - n\<rparr>"

record datetime_lib =
  strftime :: "string \<Rightarrow> datetime \<Rightarrow> string"
  isoformat :: "datetime \<Rightarrow> string"

subsection \<open>JSON documents and responses\<close>

text \<open>
  A dictionary literal is the list of its items in source order; \<open>jsonify\<close> wraps a
  document in a response with status 200. A view that returns a string yields an HTML
  response with status 200.
\<close>

datatype json =
    JInt int
  | JFloat rat
  | JStr string
  | JBool bool
  | JList "json list"
  | JObj "(string \<times> json) list"

datatype payload = is_Html: Html string | is_Json: Json json

record response =
  status :: nat
  payload :: payload

definition jsonify :: "json \<Rightarrow> response" where
  "jsonify v = \<lparr>status = 200, payload = Json v\<rparr>"

definition html_response :: "string \<Rightarrow> response" where
  "html_response s = \<lparr>status = 200, payload = Html s\<rparr>"

section \<open>The handlers of \<open>web_server_simple.py\<close>\<close>

definition generate_demo_data :: "rng \<Rightarrow> json \<times> rng" where
  "generate_demo_data g =
     (let base_reviews = 48532;
          base_rating = float_lit 4.3
      in case randint (- 50) 250 g of (daily_change, g1) \<Rightarrow>
         case uniform (- float_lit 0.2) (float_lit 0.1) g1 of (rating_change, g2) \<Rightarrow>
         case randint 0 30 g2 of (removed_today, g3) \<Rightarrow>
         case randint 100 300 g3 of (added_24h, g4) \<Rightarrow>
         case randint 800 1500 g4 of (change_reviews, g5) \<Rightarrow>
         case uniform (- float_lit 0.3) (float_lit 0.2) g5 of (change_rating, g6) \<Rightarrow>
           (JObj [(''metrics'', JObj
              [(''total_locations'', JInt 120),
               (''total_reviews'', JInt (base_reviews + daily_change)),
               (''average_rating'', JFloat (py_round (float_add base_rating rating_change) 2)),
               (''reviews_removed_today'', JInt removed_today),
               (''reviews_added_24h'', JInt added_24h),
               (''change_7d_reviews'', JInt change_reviews),
               (''change_7d_rating'', JFloat (py_round change_rating 2))])], g6))"

definition home :: "response" where
  \<open>home = html_response
    (''\<newline>'' @
     ''    <h1>Law Firm Review Tracking API</h1>\<newline>'' @
     ''    <p>Dashboard API is running!</p>\<newline>'' @
     ''    <p>Connect your dashboard to: <code>https://[this-server-url]</code></p>\<newline>'' @
     ''    <br>\<newline>'' @
     ''    <h3>Available Endpoints:</h3>\<newline>'' @
     ''    <ul>\<newline>'' @
     ''        <li><a href="/api/metrics">/api/metrics</a> - Current metrics</li>\<newline>'' @
     ''        <li><a href="/api/trends/7d">/api/trends/7d</a> - 7-day trends</li>\<newline>'' @
     ''        <li><a href="/api/locations/top">/api/locations/top</a> - Top locations</li>\<newline>'' @
     ''        <li><a href="/api/locations/attention">/api/locations/attention</a> - Locations needing attention</li>\<newline>'' @
     ''        <li><a href="/api/rating-distribution">/api/rating-distribution</a> - Rating distribution</li>\<newline>'' @
     ''    </ul>\<newline>'' @
     ''    '')\<close>

text \<open>\<open>data['metrics']\<close> raises \<open>KeyError\<close> when the key is missing.\<close>

datatype py_error = KeyError string

definition subscript :: "json \<Rightarrow> string \<Rightarrow> py_error + json" where
  "subscript d k =
     (case d of
        JObj items \<Rightarrow> (case map_of items k of Some v \<Rightarrow> Inr v | None \<Rightarrow> Inl (KeyError k))
      | _ \<Rightarrow> Inl (KeyError k))"

definition get_metrics :: "rng \<Rightarrow> (py_error + response) \<times> rng" where
  "get_metrics g =
     (case generate_demo_data g of (data, g') \<Rightarrow>
        (case subscript data ''metrics'' of
           Inl e \<Rightarrow> Inl e
         | Inr metrics \<Rightarrow> Inr (jsonify metrics), g'))"

definition period_days :: "string \<Rightarrow> int" where
  "period_days period =
     (case map_of [(''24h'', 1), (''7d'', 7), (''30d'', 30), (''90d'', 90)] period of
        Some d \<Rightarrow> d
      | None \<Rightarrow> 7)"

function trends_loop ::
  "datetime_lib \<Rightarrow> datetime \<Rightarrow> int \<Rightarrow> int \<Rightarrow> json list \<Rightarrow> rng \<Rightarrow> json list \<times> rng" where
  "trends_loop L today days i trends g =
     (if i < days then
        (let date = minus_days today (days - i - 1)
         in case randint 30 80 g of (added, g1) \<Rightarrow>
            case randint 0 10 g1 of (removed, g2) \<Rightarrow>
            case uniform (- float_lit 0.2) (float_lit 0.2) g2 of (delta, g3) \<Rightarrow>
              trends_loop L today days (i + 1)
                (trends @
                  [JObj [(''date'', JStr (strftime L ''%b %d'' date)),
                         (''reviews_added'', JInt added),
                         (''reviews_removed'', JInt removed),
                         (''average_rating'',
                            JFloat (py_round (float_add (float_lit 4.3) delta) 2))]])
                g3)
      else (trends, g))"
  by pat_completeness auto
termination
  by (relation "measure (\<lambda>(L, today, days, i, trends, g). nat (days - i))") auto

definition get_trends :: "datetime_lib \<Rightarrow> string \<Rightarrow> datetime \<Rightarrow> rng \<Rightarrow> response \<times> rng" where
  "get_trends L period now g =
     (let days = period_days period;
          today = now
      in case trends_loop L today days 0 [] g of (trends, g') \<Rightarrow> (jsonify (JList trends), g'))"

definition cities :: "(string \<times> string \<times> rat \<times> int) list" where
  "cities =
     [(''Miami Downtown'', ''Miami'', float_lit 4.8, 1245),
      (''Orlando Central'', ''Orlando'', float_lit 4.7, 892),
      (''Tampa Bay'', ''Tampa'', float_lit 4.6, 756),
      (''Jacksonville North'', ''Jacksonville'', float_lit 4.5, 623),
      (''Fort Lauderdale'', ''Fort Lauderdale'', float_lit 4.5, 589),
      (''West Palm Beach'', ''West Palm Beach'', float_lit 4.4, 456),
      (''Tallahassee Main'', ''Tallahassee'', float_lit 4.4, 412),
      (''Gainesville'', ''Gainesville'', float_lit 4.3, 389),
      (''Naples'', ''Naples'', float_lit 4.3, 356),
      (''Sarasota'', ''Sarasota'', float_lit 4.2, 298)]"

fun top_loop ::
  "(string \<times> string \<times> rat \<times> int) list \<Rightarrow> json list \<Rightarrow> rng \<Rightarrow> json list \<times> rng" where
  "top_loop [] locations g = (locations, g)"
| "top_loop ((name, city, rating, reviews) # rest) locations g =
     (case randint (- 5) 20 g of (change, g1) \<Rightarrow>
        let status = (if rating \<ge> float_lit 4.5 then ''Excellent''
                      else if rating \<ge> float_lit 4.0 then ''Good''
                      else ''Monitor'')
        in top_loop rest
             (locations @
               [JObj [(''name'', JStr (''Law Firm - '' @ name)),
                      (''city'', JStr (city @ '', FL'')),
                      (''rating'', JFloat rating),
                      (''total_reviews'', JInt reviews),
                      (''change'', JInt change),
                      (''status'', JStr status)]])
             g1)"

definition get_top_locations :: "rng \<Rightarrow> response \<times> rng" where
  "get_top_locations g =
     (case top_loop (take 10 cities) [] g of (locations, g') \<Rightarrow> (jsonify (JList locations), g'))"

definition problem_locations :: "(string \<times> string \<times> rat \<times> int \<times> string) list" where
  "problem_locations =
     [(''Lakeland Branch'', ''Lakeland'', float_lit 3.2, 8, ''Multiple Reviews Removed''),
      (''Coral Gables'', ''Coral Gables'', float_lit 3.5, 3, ''Rating Drop''),
      (''Fort Myers'', ''Fort Myers'', float_lit 3.4, 2, ''Low Rating''),
      (''Clearwater'', ''Clearwater'', float_lit 3.6, 4, ''Reviews Removed''),
      (''Ocala'', ''Ocala'', float_lit 3.3, 1, ''Low Rating'')]"

fun attention_loop ::
  "(string \<times> string \<times> rat \<times> int \<times> string) list \<Rightarrow> json list \<Rightarrow> json list" where
  "attention_loop [] locations = locations"
| "attention_loop ((name, city, rating, removed, issue) # rest) locations =
     (let priority = (if removed > 5 \<or> rating < float_lit 3.3 then ''Urgent''
                      else if rating < float_lit 3.5 then ''High''
                      else ''Medium'')
      in attention_loop rest
           (locations @
             [JObj [(''name'', JStr (''Law Firm - '' @ name)),
                    (''city'', JStr city),
                    (''issue'', JStr issue),
                    (''rating'', JFloat rating),
                    (''reviews_removed'', JInt removed),
                    (''priority'', JStr priority)]]))"

definition get_attention_locations :: "response" where
  "get_attention_locations = jsonify (JList (attention_loop problem_locations []))"

definition get_rating_distribution :: "response" where
  "get_rating_distribution =
     (let total = 48532;
          distribution =
            [(''5_star'', JInt (py_int (float_mul (float_of_int total) (float_lit 0.45)))),
             (''4_star'', JInt (py_int (float_mul (float_of_int total) (float_lit 0.30)))),
             (''3_star'', JInt (py_int (float_mul (float_of_int total) (float_lit 0.15)))),
             (''2_star'', JInt (py_int (float_mul (float_of_int total) (float_lit 0.07)))),
             (''1_star'', JInt (py_int (float_mul (float_of_int total) (float_lit 0.03))))]
      in jsonify (JObj distribution))"

definition get_recent_alerts :: "datetime_lib \<Rightarrow> datetime \<Rightarrow> rng \<Rightarrow> response \<times> rng" where
  "get_recent_alerts L now g =
     (case random g of (r, g') \<Rightarrow>
        if r > float_lit 0.7 then
          (jsonify (JList
             [JObj [(''date'', JStr (isoformat L now)),
                    (''location'', JStr ''Law Firm - Lakeland Branch''),
                    (''type'', JStr ''reviews_removed''),
                    (''message'', JStr ''8 reviews removed in the last 24 hours'')]]), g')
        else (jsonify (JList []), g'))"

definition export_excel :: "datetime_lib \<Rightarrow> datetime \<Rightarrow> response" where
  "export_excel L now =
     jsonify (JObj
       [(''success'', JBool True),
        (''message'', JStr ''Report generation simulated''),
        (''filename'', JStr (''review_report_'' @ strftime L ''%Y%m%d'' now @ ''.xlsx''))])"

subsection \<open>Routing\<close>

text \<open>
  The URL map that the \<open>@app.route\<close> decorators build: one route per handler, the trend
  route carrying its \<open>period\<close> segment. A request is served with the clock reading
  \<open>now\<close> and the random source \<open>g\<close>; the framework answers an exception that escapes a
  handler with status 500.
\<close>

datatype route =
    Home
  | Metrics
  | Trends string
  | TopLocations
  | AttentionLocations
  | RatingDistribution
  | RecentAlerts
  | ExportExcel

definition internal_server_error :: "response" where
  "internal_server_error = \<lparr>status = 500, payload = Html ''Internal Server Error''\<rparr>"

definition dispatch :: "datetime_lib \<Rightarrow> route \<Rightarrow> datetime \<Rightarrow> rng \<Rightarrow> response \<times> rng" where
  "dispatch L r now g =
     (case r of
        Home \<Rightarrow> (home, g)
      | Metrics \<Rightarrow>
          (case get_metrics g of
             (Inl e, g') \<Rightarrow> (internal_server_error, g')
           | (Inr resp, g') \<Rightarrow> (resp, g'))
      | Trends period \<Rightarrow> get_trends L period now g
      | TopLocations \<Rightarrow> get_top_locations g
      | AttentionLocations \<Rightarrow> (get_attention_locations, g)
      | RatingDistribution \<Rightarrow> (get_rating_distribution, g)
      | RecentAlerts \<Rightarrow> get_recent_alerts L now g
      | ExportExcel \<Rightarrow> (export_excel L now, g))"

text \<open>
  The number of raw integers a request takes from the random source: one per call of
  \<open>randint\<close>, \<open>uniform\<close> or \<open>random\<close> that the handler makes.
\<close>

definition draws :: "route \<Rightarrow> nat" where
  "draws r =
     (case r of
        Metrics \<Rightarrow> 6
      | Trends period \<Rightarrow> 3 * nat (period_days period)
      | TopLocations \<Rightarrow> 10
      | RecentAlerts \<Rightarrow> 1
      | _ \<Rightarrow> 0)"

section \<open>Float arithmetic: rounding is monotone\<close>

lemma rhe_of_int: "round_half_even (of_int n) = n"
  by (simp add: round_half_even_def)

lemma rhe_range: "\<lfloor>q\<rfloor> \<le> round_half_even q \<and> round_half_even q \<le> \<lfloor>q\<rfloor> + 1"
  by (simp add: round_half_even_def Let_def)

lemma rhe_mono:
  assumes "q \<le> r"
  shows "round_half_even q \<le> round_half_even r"
proof (cases "\<lfloor>q\<rfloor> = \<lfloor>r\<rfloor>")
  case True
  with assms show ?thesis
    by (auto simp: round_half_even_def Let_def)
next
  case False
  with assms have "\<lfloor>q\<rfloor> + 1 \<le> \<lfloor>r\<rfloor>"
    using floor_mono [of q r] by linarith
  with rhe_range [of q] rhe_range [of r] show ?thesis
    by linarith
qed

lemma rhe_neg: "round_half_even (- q) = - round_half_even q"
proof (cases "q = of_int \<lfloor>q\<rfloor>")
  case True
  then obtain n where "q = of_int n" ..
  then have "- q = of_int (- n)" by simp
  with \<open>q = of_int n\<close> show ?thesis
    by (simp only: rhe_of_int)
next
  case False
  then have fl: "\<lfloor>- q\<rfloor> = - \<lfloor>q\<rfloor> - 1"
    by (metis ceiling_altdef ceiling_def minus_diff_eq minus_minus uminus_add_conv_diff)
  show ?thesis
    unfolding round_half_even_def Let_def fl
    by (auto simp: algebra_simps)
qed

lemma bitlen_powi_bounds:
  assumes "0 < p"
  shows "(2::rat) powi (bitlen p - 1) \<le> of_int p" and "of_int p < (2::rat) powi bitlen p"
proof -
  from assms have b1: "1 \<le> bitlen p"
    using bitlen_eq_zero_iff [of p] bitlen_nonneg [of p] by linarith
  from bitlen_bounds [OF assms]
  have lo: "2 ^ nat (bitlen p - 1) \<le> p" and hi: "p < 2 ^ nat (bitlen p)"
    by simp_all
  from lo have "rat_of_int (2 ^ nat (bitlen p - 1)) \<le> of_int p"
    by (simp only: of_int_le_iff)
  with b1 show "(2::rat) powi (bitlen p - 1) \<le> of_int p"
    by (simp add: power_int_def)
  from hi have "rat_of_int p < of_int (2 ^ nat (bitlen p))"
    by (simp only: of_int_less_iff)
  with b1 show "of_int p < (2::rat) powi bitlen p"
    by (simp add: power_int_def)
qed

lemma ilog2_bounds:
  assumes "0 < x"
  shows "2 powi ilog2 x \<le> x \<and> x < 2 powi (ilog2 x + 1)"
proof -
  obtain p q where pq: "quotient_of x = (p, q)"
    by (cases "quotient_of x")
  then have q: "0 < q" and x: "x = of_int p / of_int q"
    using quotient_of_denom_pos quotient_of_div by blast+
  with assms have p: "0 < p"
    by (simp add: zero_less_divide_iff)
  define k where "k = bitlen p - bitlen q"
  have two: "(2::rat) \<noteq> 0" by simp
  have qpos: "(0::rat) < of_int q" using q by simp
  have "x * of_int q = of_int p"
    using q x by simp
  have "of_int p < (2::rat) powi (k + 1) * 2 powi (bitlen q - 1)"
    using bitlen_powi_bounds(2) [OF p]
    by (simp add: k_def power_int_add [symmetric])
  also have "\<dots> \<le> 2 powi (k + 1) * of_int q"
    using bitlen_powi_bounds(1) [OF q] by (simp add: mult_left_mono)
  finally have hi: "x < 2 powi (k + 1)"
    using qpos by (simp add: x pos_divide_less_eq)
  have "(2::rat) powi (k - 1) * of_int q \<le> 2 powi (k - 1) * 2 powi bitlen q"
    using bitlen_powi_bounds(2) [OF q] by (simp add: mult_left_mono)
  also have "\<dots> = 2 powi (bitlen p - 1)"
    by (simp add: k_def power_int_add [symmetric])
  also have "\<dots> \<le> of_int p"
    using bitlen_powi_bounds(1) [OF p] .
  finally have lo: "2 powi (k - 1) \<le> x"
    using qpos by (simp add: x pos_le_divide_eq)
  from hi lo show ?thesis
    by (simp add: ilog2_def pq k_def Let_def not_le less_imp_le)
qed


lemma ilog2_mono:
  assumes "0 < x" and "x \<le> y"
  shows "ilog2 x \<le> ilog2 y"
proof (rule ccontr)
  assume "\<not> ilog2 x \<le> ilog2 y"
  then have "ilog2 y + 1 \<le> ilog2 x" by simp
  then have "(2::rat) powi (ilog2 y + 1) \<le> 2 powi ilog2 x"
    by (simp add: power_int_increasing)
  moreover from assms have "0 < y" by simp
  ultimately show False
    using ilog2_bounds [OF assms(1)] ilog2_bounds [OF \<open>0 < y\<close>] assms(2) by linarith
qed

lemma binary64_neg: "binary64 (- x) = - binary64 x"
  by (simp add: binary64_def Let_def rhe_neg)

lemma powi_split: "(2::rat) powi k = 2 ^ n * 2 powi (k - int n)"
proof -
  have "(2::rat) powi k = 2 powi (int n + (k - int n))" by simp
  also have "\<dots> = 2 powi int n * 2 powi (k - int n)"
    by (rule power_int_add) simp
  finally show ?thesis by simp
qed

lemma scaled_bounds:
  assumes "0 < x"
  shows "of_int (2 ^ n) \<le> x / 2 powi (ilog2 x - int n)"
    and "x / 2 powi (ilog2 x - int n) \<le> of_int (2 ^ Suc n)"
proof -
  have pe: "(0::rat) < 2 powi (ilog2 x - int n)" by simp
  from ilog2_bounds [OF assms] have "2 ^ n * 2 powi (ilog2 x - int n) \<le> x"
    by (simp only: powi_split [of "ilog2 x" n, symmetric])
  then show "of_int (2 ^ n) \<le> x / 2 powi (ilog2 x - int n)"
    using pe by (simp add: pos_le_divide_eq)
  have "(2::rat) powi (ilog2 x + 1) = 2 ^ Suc n * 2 powi (ilog2 x - int n)"
    using powi_split [of "ilog2 x + 1" "Suc n"] by (simp add: algebra_simps)
  with ilog2_bounds [OF assms] have "x \<le> 2 ^ Suc n * 2 powi (ilog2 x - int n)"
    by simp
  then show "x / 2 powi (ilog2 x - int n) \<le> of_int (2 ^ Suc n)"
    using pe by (simp add: pos_divide_le_eq)
qed

lemma binary64_pos_bounds:
  assumes "0 < x"
  shows "2 powi ilog2 x \<le> binary64 x" and "binary64 x \<le> 2 powi (ilog2 x + 1)"
proof -
  define e where "e = ilog2 x - int 52"
  define m where "m = round_half_even (x / 2 powi e)"
  have pe: "(0::rat) < 2 powi e" by simp
  have b: "binary64 x = of_int m * 2 powi e"
    using assms by (simp add: binary64_def e_def m_def Let_def)
  from rhe_mono [OF scaled_bounds(1) [OF assms, of 52]] have "2 ^ 52 \<le> m"
    unfolding m_def e_def by (simp only: rhe_of_int)
  then have "rat_of_int (2 ^ 52) \<le> of_int m"
    by (simp only: of_int_le_iff)
  then have "2 ^ 52 * 2 powi e \<le> binary64 x"
    unfolding b using pe by (simp add: mult_right_mono)
  then show "2 powi ilog2 x \<le> binary64 x"
    unfolding e_def by (simp only: powi_split [of "ilog2 x" 52, symmetric])
  from rhe_mono [OF scaled_bounds(2) [OF assms, of 52]] have "m \<le> 2 ^ Suc 52"
    unfolding m_def e_def by (simp only: rhe_of_int)
  then have "rat_of_int m \<le> of_int (2 ^ Suc 52)"
    by (simp only: of_int_le_iff)
  then have "binary64 x \<le> 2 ^ Suc 52 * 2 powi e"
    unfolding b using pe by (simp add: mult_right_mono)
  moreover have "(2::rat) powi (ilog2 x + 1) = 2 ^ Suc 52 * 2 powi e"
    unfolding e_def using powi_split [of "ilog2 x + 1" "Suc 52"] by (simp add: algebra_simps)
  ultimately show "binary64 x \<le> 2 powi (ilog2 x + 1)"
    by simp
qed

lemma binary64_nonneg: "0 \<le> x \<Longrightarrow> 0 \<le> binary64 x"
proof (cases "x = 0")
  case True
  then show ?thesis by (simp add: binary64_def)
next
  case False
  assume "0 \<le> x"
  with False have "0 < x" by simp
  from binary64_pos_bounds(1) [OF this] have "(2::rat) powi ilog2 x \<le> binary64 x" .
  moreover have "(0::rat) < 2 powi ilog2 x" by simp
  ultimately show ?thesis by linarith
qed

lemma binary64_mono_pos:
  assumes "0 < x" and "x \<le> y"
  shows "binary64 x \<le> binary64 y"
proof (cases "ilog2 x = ilog2 y")
  case True
  from assms have y: "0 < y" by simp
  define e where "e = ilog2 x - 52"
  have pe: "(0::rat) < 2 powi e" by simp
  from assms(2) have "x / 2 powi e \<le> y / 2 powi e"
    using pe by (simp add: divide_right_mono)
  from rhe_mono [OF this]
  have "rat_of_int (round_half_even (x / 2 powi e)) \<le> of_int (round_half_even (y / 2 powi e))"
    by (simp only: of_int_le_iff)
  then have "rat_of_int (round_half_even (x / 2 powi e)) * 2 powi e
      \<le> of_int (round_half_even (y / 2 powi e)) * 2 powi e"
    using pe by (simp add: mult_right_mono)
  with assms(1) y True show ?thesis
    by (simp add: binary64_def Let_def e_def)
next
  case False
  from assms have y: "0 < y" by simp
  from False ilog2_mono [OF assms] have "ilog2 x + 1 \<le> ilog2 y" by simp
  then have "(2::rat) powi (ilog2 x + 1) \<le> 2 powi ilog2 y"
    by (simp add: power_int_increasing)
  with binary64_pos_bounds(2) [OF assms(1)] binary64_pos_bounds(1) [OF y]
  show ?thesis by linarith
qed

lemma binary64_mono:
  assumes "x \<le> y"
  shows "binary64 x \<le> binary64 y"
proof -
  consider "0 < x" | "x \<le> 0" "0 \<le> y" | "y < 0" by linarith
  then show ?thesis
  proof cases
    case 1
    then show ?thesis using assms by (rule binary64_mono_pos)
  next
    case 2
    from 2(1) have "0 \<le> binary64 (- x)" by (simp add: binary64_nonneg)
    then have "binary64 x \<le> 0" by (simp add: binary64_neg)
    with binary64_nonneg [OF 2(2)] show ?thesis by linarith
  next
    case 3
    with assms have "0 < - y" and "- y \<le> - x" by simp_all
    then have "binary64 (- y) \<le> binary64 (- x)" by (rule binary64_mono_pos)
    then show ?thesis by (simp add: binary64_neg)
  qed
qed

section \<open>The library calls: ranges and the state they leave\<close>

lemma float_add_mono: "a \<le> a' \<Longrightarrow> b \<le> b' \<Longrightarrow> float_add a b \<le> float_add a' b'"
  by (simp add: float_add_def binary64_mono add_mono)

lemma float_mul_mono: "0 \<le> c \<Longrightarrow> u \<le> u' \<Longrightarrow> float_mul c u \<le> float_mul c u'"
  by (simp add: float_mul_def binary64_mono mult_left_mono)

lemma py_round_mono: "x \<le> y \<Longrightarrow> py_round x n \<le> py_round y n"
proof -
  assume "x \<le> y"
  then have "x * 10 ^ n \<le> y * 10 ^ n"
    by (simp add: mult_right_mono)
  then have "rat_of_int (round_half_even (x * 10 ^ n)) \<le> of_int (round_half_even (y * 10 ^ n))"
    using rhe_mono by (simp only: of_int_le_iff)
  then have "rat_of_int (round_half_even (x * 10 ^ n)) / 10 ^ n
      \<le> of_int (round_half_even (y * 10 ^ n)) / 10 ^ n"
    by (simp add: divide_right_mono)
  then show ?thesis
    unfolding py_round_def by (rule binary64_mono)
qed

lemma randint_range:
  assumes "a \<le> b"
  shows "a \<le> fst (randint a b g)" and "fst (randint a b g) \<le> b"
proof -
  from assms have m: "0 < b - a + 1" by simp
  have lo: "0 \<le> g 0 mod (b - a + 1)"
    using pos_mod_sign [OF m, of "g 0"] .
  have hi: "g 0 mod (b - a + 1) \<le> b - a"
    using pos_mod_bound [OF m, of "g 0"] by linarith
  from lo show "a \<le> fst (randint a b g)"
    by (simp add: randint_def draw_def)
  from hi show "fst (randint a b g) \<le> b"
    by (simp add: randint_def draw_def)
qed

lemma random_range: "0 \<le> fst (random g)" "fst (random g) \<le> (2 ^ 53 - 1) / 2 ^ 53"
proof -
  have "0 \<le> g 0 mod 2 ^ 53" and "g 0 mod 2 ^ 53 \<le> 2 ^ 53 - 1"
    using pos_mod_bound [of "2 ^ 53" "g 0"] by simp_all
  then have "(0::rat) \<le> of_int (g 0 mod 2 ^ 53)" and "rat_of_int (g 0 mod 2 ^ 53) \<le> of_int (2 ^ 53 - 1)"
    by (simp_all only: of_int_le_iff of_int_0_le_iff)
  then show "0 \<le> fst (random g)" "fst (random g) \<le> (2 ^ 53 - 1) / 2 ^ 53"
    by (simp_all add: random_def draw_def divide_right_mono)
qed

lemma uniform_range:
  assumes "0 \<le> float_sub b a"
  shows "float_add a (float_mul (float_sub b a) 0) \<le> fst (uniform a b g)"
    and "fst (uniform a b g) \<le> float_add a (float_mul (float_sub b a) ((2 ^ 53 - 1) / 2 ^ 53))"
  using random_range [of g] assms
  by (simp_all add: uniform_def split_beta float_add_mono float_mul_mono)

lemma average_rating_lowest: "py_round (float_add (float_lit 4.3) (float_add (- float_lit 0.2)
          (float_mul (float_sub (float_lit 0.1) (- float_lit 0.2)) 0))) 2 = float_lit 4.1"
  by code_simp

lemma average_rating_highest: "py_round (float_add (float_lit 4.3) (float_add (- float_lit 0.2)
          (float_mul (float_sub (float_lit 0.1) (- float_lit 0.2)) ((2 ^ 53 - 1) / 2 ^ 53)))) 2 = float_lit 4.4"
  by code_simp

lemma change_rating_lowest: "py_round (float_add (- float_lit 0.3)
          (float_mul (float_sub (float_lit 0.2) (- float_lit 0.3)) 0)) 2 = - float_lit 0.3"
  by code_simp

lemma change_rating_highest: "py_round (float_add (- float_lit 0.3)
          (float_mul (float_sub (float_lit 0.2) (- float_lit 0.3)) ((2 ^ 53 - 1) / 2 ^ 53))) 2 = float_lit 0.2"
  by code_simp

lemma uniform_width_change: "0 \<le> float_sub (float_lit 0.2) (- float_lit 0.3)"
  by code_simp

lemma draw_snd: "snd (draw g) = advance 1 g"
  by (simp add: draw_def advance_def)

lemma randint_snd: "snd (randint a b g) = advance 1 g"
  by (simp add: randint_def split_beta draw_snd)

lemma random_snd: "snd (random g) = advance 1 g"
  by (simp add: random_def split_beta draw_snd)

lemma uniform_snd: "snd (uniform a b g) = advance 1 g"
  by (simp add: uniform_def split_beta random_snd)

lemma advance_advance: "advance m (advance n g) = advance (n + m) g"
  by (simp add: advance_def ac_simps)

lemma advance_0: "advance 0 g = g"
  by (simp add: advance_def)

lemmas rng_snd = randint_snd random_snd uniform_snd advance_advance

lemma metrics_eval:
  "get_metrics g =
    (Inr (jsonify (JObj
      [(''total_locations'', JInt 120),
       (''total_reviews'', JInt (48532 + fst (randint (- 50) 250 g))),
       (''average_rating'', JFloat (py_round (float_add (float_lit 4.3)
          (fst (uniform (- float_lit 0.2) (float_lit 0.1) (advance 1 g)))) 2)),
       (''reviews_removed_today'', JInt (fst (randint 0 30 (advance 2 g)))),
       (''reviews_added_24h'', JInt (fst (randint 100 300 (advance 3 g)))),
       (''change_7d_reviews'', JInt (fst (randint 800 1500 (advance 4 g)))),
       (''change_7d_rating'', JFloat (py_round
          (fst (uniform (- float_lit 0.3) (float_lit 0.2) (advance 5 g))) 2))])),
     advance 6 g)"
  by (simp add: get_metrics_def generate_demo_data_def subscript_def Let_def split_beta rng_snd
      eval_nat_numeral)

lemma avg_range:
  "float_lit 4.1 \<le> py_round (float_add (float_lit 4.3)
          (fst (uniform (- float_lit 0.2) (float_lit 0.1) g))) 2"
  "py_round (float_add (float_lit 4.3)
          (fst (uniform (- float_lit 0.2) (float_lit 0.1) g))) 2 \<le> float_lit 4.4"
proof -
  have c: "0 \<le> float_sub (float_lit 0.1) (- float_lit 0.2)"
    by code_simp
  note u = uniform_range [OF c, of g]
  have "float_lit 4.1 = py_round (float_add (float_lit 4.3) (float_add (- float_lit 0.2)
          (float_mul (float_sub (float_lit 0.1) (- float_lit 0.2)) 0))) 2"
    by (rule average_rating_lowest [symmetric])
  also have "\<dots> \<le> py_round (float_add (float_lit 4.3)
          (fst (uniform (- float_lit 0.2) (float_lit 0.1) g))) 2"
    by (intro py_round_mono float_add_mono order_refl u(1))
  finally show "float_lit 4.1 \<le> py_round (float_add (float_lit 4.3)
          (fst (uniform (- float_lit 0.2) (float_lit 0.1) g))) 2" .
  have "py_round (float_add (float_lit 4.3)
          (fst (uniform (- float_lit 0.2) (float_lit 0.1) g))) 2
       \<le> py_round (float_add (float_lit 4.3) (float_add (- float_lit 0.2)
          (float_mul (float_sub (float_lit 0.1) (- float_lit 0.2)) ((2 ^ 53 - 1) / 2 ^ 53)))) 2"
    by (intro py_round_mono float_add_mono order_refl u(2))
  also have "\<dots> = float_lit 4.4"
    by (rule average_rating_highest)
  finally show "py_round (float_add (float_lit 4.3)
          (fst (uniform (- float_lit 0.2) (float_lit 0.1) g))) 2 \<le> float_lit 4.4" .
qed

lemma change_range:
  "- float_lit 0.3 \<le> py_round (fst (uniform (- float_lit 0.3) (float_lit 0.2) g)) 2"
  "py_round (fst (uniform (- float_lit 0.3) (float_lit 0.2) g)) 2 \<le> float_lit 0.2"
proof -
  note u = uniform_range [OF uniform_width_change, of g]
  have "- float_lit 0.3 = py_round (float_add (- float_lit 0.3)
          (float_mul (float_sub (float_lit 0.2) (- float_lit 0.3)) 0)) 2"
    by (rule change_rating_lowest [symmetric])
  also have "\<dots> \<le> py_round (fst (uniform (- float_lit 0.3) (float_lit 0.2) g)) 2"
    by (intro py_round_mono u(1))
  finally show "- float_lit 0.3 \<le> py_round (fst (uniform (- float_lit 0.3) (float_lit 0.2) g)) 2" .
  have "py_round (fst (uniform (- float_lit 0.3) (float_lit 0.2) g)) 2
      \<le> py_round (float_add (- float_lit 0.3)
          (float_mul (float_sub (float_lit 0.2) (- float_lit 0.3)) ((2 ^ 53 - 1) / 2 ^ 53))) 2"
    by (intro py_round_mono u(2))
  also have "\<dots> = float_lit 0.2"
    by (rule change_rating_highest)
  finally show "py_round (fst (uniform (- float_lit 0.3) (float_lit 0.2) g)) 2 \<le> float_lit 0.2" .
qed

section \<open>Rating distribution\<close>

lemma bucket_values:
  "py_int (float_mul (float_of_int 48532) (float_lit 0.45)) = 21839"
  "py_int (float_mul (float_of_int 48532) (float_lit 0.30)) = 14559"
  "py_int (float_mul (float_of_int 48532) (float_lit 0.15)) = 7279"
  "py_int (float_mul (float_of_int 48532) (float_lit 0.07)) = 3397"
  "py_int (float_mul (float_of_int 48532) (float_lit 0.03)) = 1455"
  by code_simp+

text \<open>
  Claim C1. The response of \<open>/api/rating-distribution\<close> takes no input. Its five bucket
  counts, under the keys \<open>5_star\<close> down to \<open>1_star\<close>, are \<open>int(48532 * 0.45)\<close>,
  \<open>int(48532 * 0.30)\<close>, \<open>int(48532 * 0.15)\<close>, \<open>int(48532 * 0.07)\<close> and
  \<open>int(48532 * 0.03)\<close> in float arithmetic, that is 21839, 14559, 7279, 3397 and 1455, and
  their sum is at most 48532.
\<close>

theorem rating_distribution_counts:
  "\<exists>c5 c4 c3 c2 c1.
     get_rating_distribution = jsonify (JObj
       [(''5_star'', JInt c5), (''4_star'', JInt c4), (''3_star'', JInt c3),
        (''2_star'', JInt c2), (''1_star'', JInt c1)]) \<and>
     c5 = py_int (float_mul (float_of_int 48532) (float_lit 0.45)) \<and>
     c4 = py_int (float_mul (float_of_int 48532) (float_lit 0.30)) \<and>
     c3 = py_int (float_mul (float_of_int 48532) (float_lit 0.15)) \<and>
     c2 = py_int (float_mul (float_of_int 48532) (float_lit 0.07)) \<and>
     c1 = py_int (float_mul (float_of_int 48532) (float_lit 0.03)) \<and>
     [c5, c4, c3, c2, c1] = [21839, 14559, 7279, 3397, 1455] \<and>
     c5 + c4 + c3 + c2 + c1 \<le> 48532"
  unfolding get_rating_distribution_def Let_def bucket_values
  by simp

section \<open>Metrics\<close>

text \<open>
  Claim C5. For every state of the random source, \<open>/api/metrics\<close> answers with status 200
  and a document with \<open>total_locations = 120\<close>, \<open>total_reviews\<close> in \<open>[48482, 48782]\<close>,
  \<open>reviews_removed_today\<close> in \<open>[0, 30]\<close>, \<open>reviews_added_24h\<close> in \<open>[100, 300]\<close>,
  \<open>change_7d_reviews\<close> in \<open>[800, 1500]\<close>, \<open>average_rating\<close> in \<open>[4.1, 4.4]\<close> and
  \<open>change_7d_rating\<close> in \<open>[-0.3, 0.2]\<close>. The float bounds are the floats that the
  literals \<open>4.1\<close>, \<open>4.4\<close>, \<open>-0.3\<close> and \<open>0.2\<close> denote, compared as Python compares them.
\<close>

theorem metrics_ranges:
  "\<exists>resp n r a b c d.
     fst (get_metrics g) = Inr resp \<and> status resp = 200 \<and>
     payload resp = Json (JObj
       [(''total_locations'', JInt 120),
        (''total_reviews'', JInt n),
        (''average_rating'', JFloat r),
        (''reviews_removed_today'', JInt a),
        (''reviews_added_24h'', JInt b),
        (''change_7d_reviews'', JInt c),
        (''change_7d_rating'', JFloat d)]) \<and>
     48482 \<le> n \<and> n \<le> 48782 \<and>
     0 \<le> a \<and> a \<le> 30 \<and>
     100 \<le> b \<and> b \<le> 300 \<and>
     800 \<le> c \<and> c \<le> 1500 \<and>
     float_lit 4.1 \<le> r \<and> r \<le> float_lit 4.4 \<and>
     - float_lit 0.3 \<le> d \<and> d \<le> float_lit 0.2"
proof -
  let ?n = "48532 + fst (randint (- 50) 250 g)"
  let ?r = "py_round (float_add (float_lit 4.3)
          (fst (uniform (- float_lit 0.2) (float_lit 0.1) (advance 1 g)))) 2"
  let ?a = "fst (randint 0 30 (advance 2 g))"
  let ?b = "fst (randint 100 300 (advance 3 g))"
  let ?c = "fst (randint 800 1500 (advance 4 g))"
  let ?d = "py_round (fst (uniform (- float_lit 0.3) (float_lit 0.2) (advance 5 g))) 2"
  let ?resp = "jsonify (JObj
       [(''total_locations'', JInt 120),
        (''total_reviews'', JInt ?n),
        (''average_rating'', JFloat ?r),
        (''reviews_removed_today'', JInt ?a),
        (''reviews_added_24h'', JInt ?b),
        (''change_7d_reviews'', JInt ?c),
        (''change_7d_rating'', JFloat ?d)])"
  have 1: "fst (get_metrics g) = Inr ?resp"
    by (simp only: metrics_eval fst_conv)
  have 2: "status ?resp = 200" and 3: "payload ?resp = Json (JObj
       [(''total_locations'', JInt 120),
        (''total_reviews'', JInt ?n),
        (''average_rating'', JFloat ?r),
        (''reviews_removed_today'', JInt ?a),
        (''reviews_added_24h'', JInt ?b),
        (''change_7d_reviews'', JInt ?c),
        (''change_7d_rating'', JFloat ?d)])"
    by (simp_all add: jsonify_def)
  have n: "48482 \<le> ?n" "?n \<le> 48782"
    using randint_range [of "- 50" 250 g] by simp_all
  have a: "0 \<le> ?a" "?a \<le> 30"
    using randint_range [of 0 30 "advance 2 g"] by simp_all
  have b: "100 \<le> ?b" "?b \<le> 300"
    using randint_range [of 100 300 "advance 3 g"] by simp_all
  have c: "800 \<le> ?c" "?c \<le> 1500"
    using randint_range [of 800 1500 "advance 4 g"] by simp_all
  note r = avg_range [of "advance 1 g"]
  note d = change_range [of "advance 5 g"]
  from 1 2 3 n a b c r d show ?thesis
    by blast
qed

section \<open>Trends\<close>

declare trends_loop.simps [simp del]

lemma trends_loop_step:
  assumes "i < days"
  shows "trends_loop L today days i trends g =
     trends_loop L today days (i + 1)
       (trends @
         [JObj [(''date'', JStr (strftime L ''%b %d'' (minus_days today (days - i - 1)))),
                (''reviews_added'', JInt (fst (randint 30 80 g))),
                (''reviews_removed'', JInt (fst (randint 0 10 (advance 1 g)))),
                (''average_rating'',
                   JFloat (py_round (float_add (float_lit 4.3)
                     (fst (uniform (- float_lit 0.2) (float_lit 0.2) (advance 2 g)))) 2))]])
       (advance 3 g)"
  using assms
  by (subst trends_loop.simps) (simp add: Let_def split_beta rng_snd eval_nat_numeral)

lemma trends_loop_done: "\<not> i < days \<Longrightarrow> trends_loop L today days i trends g = (trends, g)"
  by (subst trends_loop.simps) simp

lemma trends_loop_map:
  assumes "\<And>d added removed rating.
     f (JObj [(''date'', JStr (strftime L ''%b %d'' d)), (''reviews_added'', JInt added),
              (''reviews_removed'', JInt removed), (''average_rating'', JFloat rating)]) = h d"
  shows "map f (fst (trends_loop L today days i trends g)) =
     map f trends @ map (\<lambda>k. h (minus_days today (days - k - 1))) [i..days - 1]"
proof (induction "nat (days - i)" arbitrary: i trends g)
  case 0
  then have "\<not> i < days" by simp
  then show ?case
    by (simp add: trends_loop_done)
next
  case (Suc n)
  then have lt: "i < days" and n: "n = nat (days - (i + 1))" by linarith+
  from lt have up: "[i..days - 1] = i # [i + 1..days - 1]"
    by (simp add: upto_rec1)
  show ?case
    unfolding trends_loop_step [OF lt] Suc.hyps(1) [OF n] up
    by (simp add: assms)
qed

lemma trends_loop_snd:
  "snd (trends_loop L today days i trends g) = advance (3 * nat (days - i)) g"
proof (induction "nat (days - i)" arbitrary: i trends g)
  case 0
  then have "\<not> i < days" by simp
  with 0 show ?case
    by (simp add: trends_loop_done advance_0)
next
  case (Suc n)
  then have lt: "i < days" and n: "n = nat (days - (i + 1))" by linarith+
  from Suc.hyps(2) have "3 * nat (days - i) = 3 + 3 * nat (days - (i + 1))"
    using n by linarith
  then show ?case
    unfolding trends_loop_step [OF lt] Suc.hyps(1) [OF n]
    by (simp add: advance_advance)
qed

text \<open>
  Claim C2. For every period string, clock reading and state of the random source, the
  response of \<open>/api/trends/<period>\<close> is a list of exactly \<open>N\<close> entries, where \<open>N\<close> is 1 for
  \<open>24h\<close>, 7 for \<open>7d\<close>, 30 for \<open>30d\<close>, 90 for \<open>90d\<close>, and 7 for every other string.
\<close>

theorem trends_length:
  "\<exists>entries. fst (get_trends L period now g) = jsonify (JList entries) \<and>
     length entries =
       (if period = ''24h'' then 1 else if period = ''7d'' then 7
        else if period = ''30d'' then 30 else if period = ''90d'' then 90 else 7)"
proof -
  let ?entries = "fst (trends_loop L now (period_days period) 0 [] g)"
  have "map (\<lambda>e. ()) ?entries = map (\<lambda>e. ()) [] @ map (\<lambda>k. ()) [0..period_days period - 1]"
    using trends_loop_map [where f = "\<lambda>e. ()" and h = "\<lambda>d. ()"] by simp
  then have "length (map (\<lambda>e. ()) ?entries) = length (map (\<lambda>k. ()) [0..period_days period - 1])"
    by simp
  then have "length ?entries = nat (period_days period)"
    by simp
  moreover have "nat (period_days period) =
       (if period = ''24h'' then 1 else if period = ''7d'' then 7
        else if period = ''30d'' then 30 else if period = ''90d'' then 90 else 7)"
    by (simp add: period_days_def)
  moreover have "fst (get_trends L period now g) = jsonify (JList ?entries)"
    by (simp add: get_trends_def Let_def split_beta)
  ultimately show ?thesis by metis
qed


text \<open>The period \<open>30d\<close> yields 30 entries.\<close>

theorem trends_length_witness:
  "\<exists>entries.
     fst (get_trends \<lparr>strftime = (\<lambda>f t. f), isoformat = (\<lambda>t. [])\<rparr> ''30d''
           \<lparr>ordinal = 740000, microsecond_of_day = 0\<rparr> (\<lambda>i. 0)) = jsonify (JList entries) \<and>
     length entries = 30"
  using trends_length [of "\<lparr>strftime = (\<lambda>f t. f), isoformat = (\<lambda>t. [])\<rparr>" "''30d''"
      "\<lparr>ordinal = 740000, microsecond_of_day = 0\<rparr>" "\<lambda>i. 0"]
  by simp

lemma period_days_pos: "1 \<le> period_days period"
  by (simp add: period_days_def)

lemma trends_dates_aux:
  "map (\<lambda>e. subscript e ''date'') (fst (trends_loop L now days 0 [] g)) =
     map (\<lambda>k. Inr (JStr (strftime L ''%b %d'' (minus_days now (days - k - 1))))) [0..days - 1]"
  using trends_loop_map [where f = "\<lambda>e. subscript e ''date''"
      and h = "\<lambda>d. Inr (JStr (strftime L ''%b %d'' d))" and L = L and trends = "[]"]
  by (simp add: subscript_def)

text \<open>
  Claim C6. For every period string, clock reading and state of the random source, the
  response of \<open>/api/trends/<period>\<close> has one entry per day of the window: the \<open>date\<close> field
  of entry \<open>i\<close> is the label of the day \<open>days - i - 1\<close> days before the request day, these
  days are strictly increasing, each one the calendar day after its predecessor, and the
  day of the last entry is the request day.
\<close>

theorem trends_dates:
  "\<exists>entries. fst (get_trends L period now g) = jsonify (JList entries) \<and>
     (let days = period_days period in
        length entries = nat days \<and>
        (\<forall>i < length entries.
           subscript (entries ! i) ''date'' =
             Inr (JStr (strftime L ''%b %d'' (minus_days now (days - int i - 1))))) \<and>
        (\<forall>i j. i < j \<and> j < nat days \<longrightarrow>
           ordinal (minus_days now (days - int i - 1)) < ordinal (minus_days now (days - int j - 1))) \<and>
        (\<forall>i. Suc i < nat days \<longrightarrow>
           ordinal (minus_days now (days - int (Suc i) - 1)) =
             ordinal (minus_days now (days - int i - 1)) + 1) \<and>
        minus_days now (days - int (nat days - 1) - 1) = now)"
proof -
  define days where "days = period_days period"
  define entries where "entries = fst (trends_loop L now days 0 [] g)"
  have d1: "1 \<le> days"
    unfolding days_def by (rule period_days_pos)
  have resp: "fst (get_trends L period now g) = jsonify (JList entries)"
    by (simp add: get_trends_def Let_def split_beta entries_def days_def)
  have m: "map (\<lambda>e. subscript e ''date'') entries =
     map (\<lambda>k. Inr (JStr (strftime L ''%b %d'' (minus_days now (days - k - 1))))) [0..days - 1]"
    unfolding entries_def by (rule trends_dates_aux)
  from arg_cong [OF m, of length] have len: "length entries = nat days"
    by simp
  have dates: "subscript (entries ! i) ''date'' =
      Inr (JStr (strftime L ''%b %d'' (minus_days now (days - int i - 1))))"
    if "i < length entries" for i
  proof -
    from that len have i: "0 + int i \<le> days - 1" by linarith
    from that have "subscript (entries ! i) ''date'' = map (\<lambda>e. subscript e ''date'') entries ! i"
      by simp
    also have "\<dots> = Inr (JStr (strftime L ''%b %d'' (minus_days now (days - [0..days - 1] ! i - 1))))"
      unfolding m using that len by simp
    also have "[0..days - 1] ! i = 0 + int i"
      using i by (rule nth_upto)
    finally show ?thesis by simp
  qed
  have incr: "ordinal (minus_days now (days - int i - 1)) < ordinal (minus_days now (days - int j - 1))"
    if "i < j" for i j
    using that by (simp add: minus_days_def)
  have succ: "ordinal (minus_days now (days - int (Suc i) - 1)) =
             ordinal (minus_days now (days - int i - 1)) + 1" for i
    by (simp add: minus_days_def)
  have last: "minus_days now (days - int (nat days - 1) - 1) = now"
    using d1 by (simp add: minus_days_def)
  from resp len dates incr succ last show ?thesis
    unfolding Let_def days_def [symmetric] by blast
qed

text \<open>
  A seven-day window: the first entry is six days before the request day, the second one
  day later, and the last is the request day.
\<close>

theorem trends_dates_witness:
  "\<exists>entries.
     fst (get_trends \<lparr>strftime = (\<lambda>f t. f), isoformat = (\<lambda>t. [])\<rparr> ''7d''
           \<lparr>ordinal = 740000, microsecond_of_day = 0\<rparr> (\<lambda>i. 0)) = jsonify (JList entries) \<and>
     length entries = 7 \<and>
     subscript (entries ! 0) ''date'' = Inr (JStr ''%b %d'') \<and>
     ordinal (minus_days \<lparr>ordinal = 740000, microsecond_of_day = 0\<rparr> 6)
       < ordinal (minus_days \<lparr>ordinal = 740000, microsecond_of_day = 0\<rparr> 0) \<and>
     ordinal (minus_days \<lparr>ordinal = 740000, microsecond_of_day = 0\<rparr> 5)
       = ordinal (minus_days \<lparr>ordinal = 740000, microsecond_of_day = 0\<rparr> 6) + 1 \<and>
     minus_days \<lparr>ordinal = 740000, microsecond_of_day = 0\<rparr> 0
       = \<lparr>ordinal = 740000, microsecond_of_day = 0\<rparr>"
proof -
  let ?L = "\<lparr>strftime = (\<lambda>f t. f), isoformat = (\<lambda>t. [])\<rparr>"
  let ?now = "\<lparr>ordinal = 740000, microsecond_of_day = 0\<rparr>"
  have p: "period_days ''7d'' = 7"
    by (simp add: period_days_def)
  from trends_dates [of ?L "''7d''" ?now "\<lambda>i. 0"]
  obtain entries where
    resp: "fst (get_trends ?L ''7d'' ?now (\<lambda>i. 0)) = jsonify (JList entries)" and
    len: "length entries = 7" and
    dates: "\<forall>i < length entries. subscript (entries ! i) ''date'' =
       Inr (JStr (strftime ?L ''%b %d'' (minus_days ?now (7 - int i - 1))))" and
    incr: "\<forall>i j. i < j \<and> j < nat 7 \<longrightarrow>
       ordinal (minus_days ?now (7 - int i - 1)) < ordinal (minus_days ?now (7 - int j - 1))" and
    succ: "\<forall>i. Suc i < nat 7 \<longrightarrow>
       ordinal (minus_days ?now (7 - int (Suc i) - 1)) = ordinal (minus_days ?now (7 - int i - 1)) + 1" and
    last: "minus_days ?now (7 - int (nat 7 - 1) - 1) = ?now"
    unfolding p Let_def by auto
  from dates len have "subscript (entries ! 0) ''date'' = Inr (JStr ''%b %d'')"
    by simp
  moreover from incr [rule_format, of 0 6]
  have "ordinal (minus_days ?now 6) < ordinal (minus_days ?now 0)"
    by simp
  moreover from succ [rule_format, of 0]
  have "ordinal (minus_days ?now 5) = ordinal (minus_days ?now 6) + 1"
    by simp
  moreover from last have "minus_days ?now 0 = ?now"
    by simp
  ultimately show ?thesis
    using resp len by blast
qed

section \<open>Top locations\<close>

lemma snoc_append: "(xs @ [y]) @ zs = xs @ y # zs"
  by simp

lemma top_loop_Cons:
  "top_loop ((name, city, rating, reviews) # rest) locations g =
     top_loop rest
       (locations @
         [JObj [(''name'', JStr (''Law Firm - '' @ name)),
                (''city'', JStr (city @ '', FL'')),
                (''rating'', JFloat rating),
                (''total_reviews'', JInt reviews),
                (''change'', JInt (fst (randint (- 5) 20 g))),
                (''status'', JStr (if rating \<ge> float_lit 4.5 then ''Excellent''
                                   else if rating \<ge> float_lit 4.0 then ''Good''
                                   else ''Monitor''))]])
       (advance 1 g)"
  by (simp add: split_beta Let_def rng_snd)

lemma top_loop_map:
  assumes "\<And>name city rating reviews change.
     f (JObj [(''name'', JStr (''Law Firm - '' @ name)),
              (''city'', JStr (city @ '', FL'')),
              (''rating'', JFloat rating),
              (''total_reviews'', JInt reviews),
              (''change'', JInt change),
              (''status'', JStr (if rating \<ge> float_lit 4.5 then ''Excellent''
                                 else if rating \<ge> float_lit 4.0 then ''Good''
                                 else ''Monitor''))]) = h (name, city, rating, reviews)"
  shows "map f (fst (top_loop cs locations g)) = map f locations @ map h cs"
proof (induction cs arbitrary: locations g)
  case Nil
  show ?case by simp
next
  case (Cons c cs)
  obtain name city rating reviews where c: "c = (name, city, rating, reviews)"
    by (cases c)
  show ?case
    unfolding c top_loop_Cons Cons.IH
    by (simp only: map_append list.map assms snoc_append)
qed

lemma top_loop_snd: "snd (top_loop cs locations g) = advance (length cs) g"
proof (induction cs arbitrary: locations g)
  case Nil
  show ?case by (simp add: advance_0)
next
  case (Cons c cs)
  obtain name city rating reviews where c: "c = (name, city, rating, reviews)"
    by (cases c)
  show ?case
    unfolding c top_loop_Cons Cons.IH by (simp add: advance_advance)
qed

lemma map_const_True: "map f xs = map (\<lambda>_. True) ys \<Longrightarrow> \<forall>x \<in> set xs. f x"
  by (metis (full_types) imageE image_eqI list.set_map)

lemma top_response: "fst (get_top_locations g) = jsonify (JList (fst (top_loop (take 10 cities) [] g)))"
  by (simp add: get_top_locations_def split_beta)

lemma top_length: "length (fst (top_loop (take 10 cities) [] g)) = 10"
proof -
  have "map (\<lambda>e. ()) (fst (top_loop (take 10 cities) [] g)) = map (\<lambda>c. ()) (take 10 cities)"
    using top_loop_map [where f = "\<lambda>e. ()" and h = "\<lambda>c. ()" and locations = "[]"] by simp
  from arg_cong [OF this, of length] show ?thesis
    by (simp add: cities_def)
qed

text \<open>
  Claim C3. For every state of the random source, the response of \<open>/api/locations/top\<close>
  has at most 10 entries, and the \<open>status\<close> of every entry is \<open>Excellent\<close> when its rating
  is at least 4.5, \<open>Good\<close> when it is at least 4.0 and below 4.5, and \<open>Monitor\<close> otherwise;
  so every status is one of the three.
\<close>

theorem top_locations_status:
  "\<exists>entries. fst (get_top_locations g) = jsonify (JList entries) \<and>
     length entries \<le> 10 \<and>
     (\<forall>e \<in> set entries. \<exists>r s.
        subscript e ''rating'' = Inr (JFloat r) \<and>
        subscript e ''status'' = Inr (JStr s) \<and>
        s = (if r \<ge> float_lit 4.5 then ''Excellent''
             else if r \<ge> float_lit 4.0 then ''Good''
             else ''Monitor'') \<and>
        s \<in> {''Excellent'', ''Good'', ''Monitor''})"
proof -
  let ?P = "\<lambda>e. \<exists>r s.
        subscript e ''rating'' = Inr (JFloat r) \<and>
        subscript e ''status'' = Inr (JStr s) \<and>
        s = (if r \<ge> float_lit 4.5 then ''Excellent''
             else if r \<ge> float_lit 4.0 then ''Good''
             else ''Monitor'') \<and>
        s \<in> {''Excellent'', ''Good'', ''Monitor''}"
  let ?entries = "fst (top_loop (take 10 cities) [] g)"
  have "map ?P ?entries = map ?P [] @ map (\<lambda>_. True) (take 10 cities)"
    by (rule top_loop_map) (simp add: subscript_def)
  then have "\<forall>e \<in> set ?entries. ?P e"
    by (intro map_const_True [of ?P ?entries "take 10 cities"]) simp
  moreover have "length ?entries \<le> 10"
    by (simp add: top_length)
  ultimately show ?thesis
    using top_response [of g] by blast
qed

lemma float_lit_mono: "d \<le> d' \<Longrightarrow> float_lit d \<le> float_lit d'"
  unfolding float_lit_def by (rule binary64_mono)

lemma jsonify_inject: "jsonify a = jsonify b \<Longrightarrow> a = b"
  by (simp add: jsonify_def)

lemma top_ratings:
  "map (\<lambda>e. subscript e ''rating'') (fst (top_loop cs [] g)) =
     map (\<lambda>r. Inr (JFloat r)) (map (\<lambda>(name, city, rating, reviews). rating) cs)"
  using top_loop_map [where f = "\<lambda>e. subscript e ''rating''"
      and h = "\<lambda>(name, city, rating, reviews). Inr (JFloat rating)" and locations = "[]"
      and cs = cs and g = g]
  by (simp add: subscript_def split_beta comp_def)

text \<open>The first entry has rating 4.8 and status \<open>Excellent\<close>.\<close>

theorem top_locations_status_witness:
  "\<exists>entries. fst (get_top_locations (\<lambda>i. 0)) = jsonify (JList entries) \<and>
     entries \<noteq> [] \<and>
     subscript (hd entries) ''rating'' = Inr (JFloat (float_lit 4.8)) \<and>
     subscript (hd entries) ''status'' = Inr (JStr ''Excellent'')"
proof -
  let ?g = "\<lambda>i::nat. 0::int"
  from top_locations_status [of ?g] obtain entries where
    resp: "fst (get_top_locations ?g) = jsonify (JList entries)" and
    st: "\<forall>e \<in> set entries. \<exists>r s.
        subscript e ''rating'' = Inr (JFloat r) \<and>
        subscript e ''status'' = Inr (JStr s) \<and>
        s = (if r \<ge> float_lit 4.5 then ''Excellent''
             else if r \<ge> float_lit 4.0 then ''Good''
             else ''Monitor'') \<and>
        s \<in> {''Excellent'', ''Good'', ''Monitor''}"
    by blast
  from resp top_response [of ?g] have e: "entries = fst (top_loop (take 10 cities) [] ?g)"
    using jsonify_inject by fastforce
  with top_length [of ?g] have ne: "entries \<noteq> []"
    by auto
  have "map (\<lambda>e. subscript e ''rating'') entries =
     map (\<lambda>r. Inr (JFloat r)) (map (\<lambda>(name, city, rating, reviews). rating) (take 10 cities))"
    unfolding e by (rule top_ratings)
  from arg_cong [OF this, of hd] ne
  have r: "subscript (hd entries) ''rating'' = Inr (JFloat (float_lit 4.8))"
    by (simp add: hd_map cities_def)
  from ne st have "\<exists>r s.
        subscript (hd entries) ''rating'' = Inr (JFloat r) \<and>
        subscript (hd entries) ''status'' = Inr (JStr s) \<and>
        s = (if r \<ge> float_lit 4.5 then ''Excellent''
             else if r \<ge> float_lit 4.0 then ''Good''
             else ''Monitor'')"
    by (meson hd_in_set)
  with r have "subscript (hd entries) ''status'' =
      Inr (JStr (if float_lit 4.8 \<ge> float_lit 4.5 then ''Excellent''
             else if float_lit 4.8 \<ge> float_lit 4.0 then ''Good''
             else ''Monitor''))"
    by auto
  moreover have "float_lit 4.5 \<le> float_lit 4.8"
    by (rule float_lit_mono) simp
  ultimately have "subscript (hd entries) ''status'' = Inr (JStr ''Excellent'')"
    by (simp only: if_True)
  with resp ne r show ?thesis
    by blast
qed

lemma top_affixes:
  "\<forall>e \<in> set (fst (top_loop cs [] g)). \<exists>n c.
      subscript e ''name'' = Inr (JStr n) \<and> prefix ''Law Firm - '' n \<and>
      subscript e ''city'' = Inr (JStr c) \<and> suffix '', FL'' c"
proof -
  let ?P = "\<lambda>e. \<exists>n c.
      subscript e ''name'' = Inr (JStr n) \<and> prefix ''Law Firm - '' n \<and>
      subscript e ''city'' = Inr (JStr c) \<and> suffix '', FL'' c"
  have "map ?P (fst (top_loop cs [] g)) = map ?P [] @ map (\<lambda>_. True) cs"
    by (rule top_loop_map) (simp add: subscript_def suffix_def)
  then show ?thesis
    by (intro map_const_True [of ?P _ cs]) simp
qed

lemma cities_ratings_sorted:
  "sorted_wrt (\<ge>) (map (\<lambda>(name, city, rating, reviews). rating) (take 10 cities))"
  by (simp add: cities_def float_lit_mono)

text \<open>
  Claim C10. For every state of the random source, the ratings of the entries of
  \<open>/api/locations/top\<close>, in order, never increase, from 4.8 at the head down to 4.2 at the
  end; every \<open>name\<close> starts with \<open>Law Firm - \<close> and every \<open>city\<close> ends with \<open>, FL\<close>.
\<close>

theorem top_locations_sorted:
  "\<exists>entries ratings. fst (get_top_locations g) = jsonify (JList entries) \<and>
     map (\<lambda>e. subscript e ''rating'') entries = map (\<lambda>r. Inr (JFloat r)) ratings \<and>
     sorted_wrt (\<ge>) ratings \<and>
     hd ratings = float_lit 4.8 \<and> last ratings = float_lit 4.2 \<and>
     (\<forall>e \<in> set entries. \<exists>n c.
        subscript e ''name'' = Inr (JStr n) \<and> prefix ''Law Firm - '' n \<and>
        subscript e ''city'' = Inr (JStr c) \<and> suffix '', FL'' c)"
proof -
  let ?entries = "fst (top_loop (take 10 cities) [] g)"
  let ?ratings = "map (\<lambda>(name, city, rating, reviews). rating) (take 10 cities)"
  have "hd ?ratings = float_lit 4.8" and "last ?ratings = float_lit 4.2"
    by (simp_all add: cities_def)
  with top_response [of g] top_ratings [of "take 10 cities" g] cities_ratings_sorted
    top_affixes [of "take 10 cities" g]
  show ?thesis by blast
qed

text \<open>The first entry carries both affixes.\<close>

theorem top_locations_sorted_witness:
  "\<exists>entries. fst (get_top_locations (\<lambda>i. 0)) = jsonify (JList entries) \<and>
     entries \<noteq> [] \<and>
     (\<exists>n c. subscript (hd entries) ''name'' = Inr (JStr n) \<and> prefix ''Law Firm - '' n \<and>
            subscript (hd entries) ''city'' = Inr (JStr c) \<and> suffix '', FL'' c)"
proof -
  let ?g = "\<lambda>i::nat. 0::int"
  from top_locations_sorted [of ?g] obtain entries where
    resp: "fst (get_top_locations ?g) = jsonify (JList entries)" and
    aff: "\<forall>e \<in> set entries. \<exists>n c.
        subscript e ''name'' = Inr (JStr n) \<and> prefix ''Law Firm - '' n \<and>
        subscript e ''city'' = Inr (JStr c) \<and> suffix '', FL'' c"
    by blast
  from resp top_response [of ?g] have e: "entries = fst (top_loop (take 10 cities) [] ?g)"
    using jsonify_inject by fastforce
  with top_length [of ?g] have ne: "entries \<noteq> []"
    by auto
  then have "hd entries \<in> set entries"
    by (rule hd_in_set)
  with aff resp ne show ?thesis
    by blast
qed

section \<open>Locations needing attention\<close>

lemma attention_loop_Cons:
  "attention_loop ((name, city, rating, removed, issue) # rest) locations =
     attention_loop rest
       (locations @
         [JObj [(''name'', JStr (''Law Firm - '' @ name)),
                (''city'', JStr city),
                (''issue'', JStr issue),
                (''rating'', JFloat rating),
                (''reviews_removed'', JInt removed),
                (''priority'', JStr (if removed > 5 \<or> rating < float_lit 3.3 then ''Urgent''
                                     else if rating < float_lit 3.5 then ''High''
                                     else ''Medium''))]])"
  by (simp add: Let_def)

lemma attention_loop_map:
  assumes "\<And>name city rating removed issue.
     f (JObj [(''name'', JStr (''Law Firm - '' @ name)),
              (''city'', JStr city),
              (''issue'', JStr issue),
              (''rating'', JFloat rating),
              (''reviews_removed'', JInt removed),
              (''priority'', JStr (if removed > 5 \<or> rating < float_lit 3.3 then ''Urgent''
                                   else if rating < float_lit 3.5 then ''High''
                                   else ''Medium''))]) = h (name, city, rating, removed, issue)"
  shows "map f (attention_loop ps locations) = map f locations @ map h ps"
proof (induction ps arbitrary: locations)
  case Nil
  show ?case by simp
next
  case (Cons p ps)
  obtain name city rating removed issue where p: "p = (name, city, rating, removed, issue)"
    by (cases p)
  show ?case
    unfolding p attention_loop_Cons Cons.IH
    by (simp only: map_append list.map assms snoc_append)
qed

lemma attention_length: "length (attention_loop problem_locations []) = 5"
proof -
  have "map (\<lambda>e. ()) (attention_loop problem_locations []) = map (\<lambda>c. ()) problem_locations"
    using attention_loop_map [where f = "\<lambda>e. ()" and h = "\<lambda>c. ()" and locations = "[]"] by simp
  from arg_cong [OF this, of length] show ?thesis
    by (simp add: problem_locations_def)
qed

text \<open>
  Claim C7. The response of \<open>/api/locations/attention\<close> is a list of exactly 5 entries, and
  the \<open>priority\<close> of every entry follows from its \<open>rating\<close> and \<open>reviews_removed\<close>:
  \<open>Urgent\<close> when more than 5 reviews were removed or the rating is below 3.3, otherwise
  \<open>High\<close> when the rating is below 3.5, otherwise \<open>Medium\<close>.
\<close>

theorem attention_priority:
  "\<exists>entries. get_attention_locations = jsonify (JList entries) \<and>
     length entries = 5 \<and>
     (\<forall>e \<in> set entries. \<exists>r n.
        subscript e ''rating'' = Inr (JFloat r) \<and>
        subscript e ''reviews_removed'' = Inr (JInt n) \<and>
        subscript e ''priority'' =
          Inr (JStr (if n > 5 \<or> r < float_lit 3.3 then ''Urgent''
                     else if r < float_lit 3.5 then ''High''
                     else ''Medium'')))"
proof -
  let ?P = "\<lambda>e. \<exists>r n.
        subscript e ''rating'' = Inr (JFloat r) \<and>
        subscript e ''reviews_removed'' = Inr (JInt n) \<and>
        subscript e ''priority'' =
          Inr (JStr (if n > 5 \<or> r < float_lit 3.3 then ''Urgent''
                     else if r < float_lit 3.5 then ''High''
                     else ''Medium''))"
  let ?entries = "attention_loop problem_locations []"
  have "map ?P ?entries = map ?P [] @ map (\<lambda>_. True) problem_locations"
    by (rule attention_loop_map) (simp add: subscript_def)
  then have "\<forall>e \<in> set ?entries. ?P e"
    by (intro map_const_True [of ?P ?entries problem_locations]) simp
  with attention_length show ?thesis
    unfolding get_attention_locations_def by blast
qed

text \<open>The first entry has 8 reviews removed and priority \<open>Urgent\<close>.\<close>

theorem attention_priority_witness:
  "\<exists>entries. get_attention_locations = jsonify (JList entries) \<and>
     entries \<noteq> [] \<and>
     subscript (hd entries) ''reviews_removed'' = Inr (JInt 8) \<and>
     subscript (hd entries) ''priority'' = Inr (JStr ''Urgent'')"
proof -
  from attention_priority obtain entries where
    resp: "get_attention_locations = jsonify (JList entries)" and
    len: "length entries = 5" and
    pr: "\<forall>e \<in> set entries. \<exists>r n.
        subscript e ''rating'' = Inr (JFloat r) \<and>
        subscript e ''reviews_removed'' = Inr (JInt n) \<and>
        subscript e ''priority'' =
          Inr (JStr (if n > 5 \<or> r < float_lit 3.3 then ''Urgent''
                     else if r < float_lit 3.5 then ''High''
                     else ''Medium''))"
    by blast
  from len have ne: "entries \<noteq> []"
    by auto
  from resp have e: "entries = attention_loop problem_locations []"
    unfolding get_attention_locations_def using jsonify_inject by fastforce
  have "map (\<lambda>e. subscript e ''reviews_removed'') (attention_loop problem_locations []) =
      map (\<lambda>e. subscript e ''reviews_removed'') [] @
      map (\<lambda>(name, city, rating, removed, issue). Inr (JInt removed)) problem_locations"
    by (rule attention_loop_map) (simp add: subscript_def)
  from arg_cong [OF this, of hd] ne
  have n: "subscript (hd entries) ''reviews_removed'' = Inr (JInt 8)"
    unfolding e [symmetric] by (simp add: hd_map problem_locations_def)
  from ne pr have "\<exists>r n.
        subscript (hd entries) ''rating'' = Inr (JFloat r) \<and>
        subscript (hd entries) ''reviews_removed'' = Inr (JInt n) \<and>
        subscript (hd entries) ''priority'' =
          Inr (JStr (if n > 5 \<or> r < float_lit 3.3 then ''Urgent''
                     else if r < float_lit 3.5 then ''High''
                     else ''Medium''))"
    by (meson hd_in_set)
  with n have "subscript (hd entries) ''priority'' = Inr (JStr ''Urgent'')"
    by auto
  with resp ne n show ?thesis
    by blast
qed

section \<open>Recent alerts\<close>

text \<open>
  Claim C4. For every clock reading and state of the random source, the response of
  \<open>/api/alerts/recent\<close> is the empty list or a list of exactly one alert, an object with
  the fields \<open>date\<close>, \<open>location\<close>, \<open>type\<close> and \<open>message\<close>.
\<close>

theorem recent_alerts_shape:
  "\<exists>entries. fst (get_recent_alerts L now g) = jsonify (JList entries) \<and>
     (entries = [] \<or>
      entries = [JObj [(''date'', JStr (isoformat L now)),
                       (''location'', JStr ''Law Firm - Lakeland Branch''),
                       (''type'', JStr ''reviews_removed''),
                       (''message'', JStr ''8 reviews removed in the last 24 hours'')]])"
proof (cases "fst (random g) > float_lit 0.7")
  case True
  then have "fst (get_recent_alerts L now g) = jsonify (JList
      [JObj [(''date'', JStr (isoformat L now)),
             (''location'', JStr ''Law Firm - Lakeland Branch''),
             (''type'', JStr ''reviews_removed''),
             (''message'', JStr ''8 reviews removed in the last 24 hours'')]])"
    by (simp add: get_recent_alerts_def split_beta)
  then show ?thesis
    by blast
next
  case False
  then have "fst (get_recent_alerts L now g) = jsonify (JList [])"
    by (simp add: get_recent_alerts_def split_beta)
  then show ?thesis
    by blast
qed

text \<open>Both answers occur: the lowest raw draw gives no alert, the highest gives one.\<close>

lemma recent_alerts_none: "fst (get_recent_alerts L now (\<lambda>i. 0)) = jsonify (JList [])"
proof -
  have "0 \<le> float_lit 0.7"
    unfolding float_lit_def by (rule binary64_nonneg) simp
  then show ?thesis
    by (simp add: get_recent_alerts_def split_beta random_def draw_def not_less)
qed

lemma float_lit_07_below: "float_lit 0.7 < (2 ^ 53 - 1) / 2 ^ 53"
  by code_simp

lemma recent_alerts_one:
  "fst (get_recent_alerts L now (\<lambda>i. 2 ^ 53 - 1)) = jsonify (JList
      [JObj [(''date'', JStr (isoformat L now)),
             (''location'', JStr ''Law Firm - Lakeland Branch''),
             (''type'', JStr ''reviews_removed''),
             (''message'', JStr ''8 reviews removed in the last 24 hours'')]])"
proof -
  have "fst (random (\<lambda>i. 2 ^ 53 - 1)) = (2 ^ 53 - 1) / 2 ^ 53"
    by (simp add: random_def draw_def)
  with float_lit_07_below have "fst (random (\<lambda>i. 2 ^ 53 - 1)) > float_lit 0.7"
    by simp
  then show ?thesis
    by (simp add: get_recent_alerts_def split_beta)
qed

section \<open>Routing: status and body of every route\<close>

lemma trends_response:
  "fst (get_trends L period now g) =
     jsonify (JList (fst (trends_loop L now (period_days period) 0 [] g)))"
  by (simp add: get_trends_def Let_def split_beta)

lemma jsonify_status: "status (jsonify v) = 200" and jsonify_payload: "is_Json (payload (jsonify v))"
  by (simp_all add: jsonify_def)

lemma rating_distribution_json: "\<exists>v. get_rating_distribution = jsonify v"
  unfolding get_rating_distribution_def Let_def by (rule exI) (rule refl)

lemma recent_alerts_json: "\<exists>v. fst (get_recent_alerts L now g) = jsonify v"
proof (cases "fst (random g) > float_lit 0.7")
  case True
  then have "fst (get_recent_alerts L now g) = jsonify (JList
      [JObj [(''date'', JStr (isoformat L now)),
             (''location'', JStr ''Law Firm - Lakeland Branch''),
             (''type'', JStr ''reviews_removed''),
             (''message'', JStr ''8 reviews removed in the last 24 hours'')]])"
    by (simp add: get_recent_alerts_def split_beta)
  then show ?thesis ..
next
  case False
  then have "fst (get_recent_alerts L now g) = jsonify (JList [])"
    by (simp add: get_recent_alerts_def split_beta)
  then show ?thesis ..
qed

lemma dispatch_jsonify:
  assumes "r \<noteq> Home"
  shows "\<exists>v. fst (dispatch L r now g) = jsonify v"
proof (cases r)
  case Home
  with assms show ?thesis by simp
next
  case Metrics
  from metrics_eval [of g] obtain v where "get_metrics g = (Inr (jsonify v), advance 6 g)"
    by blast
  with Metrics have "fst (dispatch L r now g) = jsonify v"
    by (simp add: dispatch_def)
  then show ?thesis ..
next
  case (Trends period)
  then have "fst (dispatch L r now g) =
      jsonify (JList (fst (trends_loop L now (period_days period) 0 [] g)))"
    by (simp add: dispatch_def trends_response)
  then show ?thesis ..
next
  case TopLocations
  then have "fst (dispatch L r now g) = jsonify (JList (fst (top_loop (take 10 cities) [] g)))"
    by (simp add: dispatch_def top_response)
  then show ?thesis ..
next
  case AttentionLocations
  then have "fst (dispatch L r now g) = jsonify (JList (attention_loop problem_locations []))"
    by (simp add: dispatch_def get_attention_locations_def)
  then show ?thesis ..
next
  case RatingDistribution
  with rating_distribution_json obtain v where "fst (dispatch L r now g) = jsonify v"
    by (auto simp: dispatch_def)
  then show ?thesis ..
next
  case RecentAlerts
  with recent_alerts_json [of L now g] obtain v where "fst (dispatch L r now g) = jsonify v"
    by (auto simp: dispatch_def)
  then show ?thesis ..
next
  case ExportExcel
  then have "fst (dispatch L r now g) = jsonify (JObj
       [(''success'', JBool True),
        (''message'', JStr ''Report generation simulated''),
        (''filename'', JStr (''review_report_'' @ strftime L ''%Y%m%d'' now @ ''.xlsx''))])"
    by (simp add: dispatch_def export_excel_def)
  then show ?thesis ..
qed

lemma period_days_default:
  "period \<notin> {''24h'', ''7d'', ''30d'', ''90d''} \<Longrightarrow> period_days period = 7"
  by (simp add: period_days_def)

text \<open>
  Claim C8 says that every exposed route, \<open>/\<close> included, returns a JSON body with status
  200. The body of \<open>/\<close> is the HTML landing page, not a JSON document.
\<close>

theorem home_not_json: "\<not> is_Json (payload home)"
  by (simp add: home_def html_response_def)

text \<open>
  Claim C8, amended. For every route, clock reading and state of the random source the
  response has status 200; its body is a JSON document for every route except \<open>/\<close>, whose
  body is HTML; and a trend request with an unrecognized period is served exactly as the
  request for \<open>7d\<close> is, not as an error.
\<close>

theorem routes_status_200:
  "status (fst (dispatch L r now g)) = 200 \<and>
   (r = Home \<longrightarrow> is_Html (payload (fst (dispatch L r now g)))) \<and>
   (r \<noteq> Home \<longrightarrow> is_Json (payload (fst (dispatch L r now g)))) \<and>
   (\<forall>period. r = Trends period \<and> period \<notin> {''24h'', ''7d'', ''30d'', ''90d''} \<longrightarrow>
      dispatch L r now g = dispatch L (Trends ''7d'') now g)"
proof (cases "r = Home")
  case True
  then show ?thesis
    by (simp add: dispatch_def home_def html_response_def)
next
  case False
  then obtain v where v: "fst (dispatch L r now g) = jsonify v"
    using dispatch_jsonify by blast
  have "dispatch L (Trends period) now g = dispatch L (Trends ''7d'') now g"
    if "period \<notin> {''24h'', ''7d'', ''30d'', ''90d''}" for period
  proof -
    have "period_days ''7d'' = 7"
      by (simp add: period_days_def)
    with period_days_default [OF that] show ?thesis
      by (simp add: dispatch_def get_trends_def)
  qed
  with False show ?thesis
    unfolding v by (auto simp: jsonify_status jsonify_payload)
qed

text \<open>
  The unrecognized period \<open>1y\<close> is answered with status 200 and the JSON document of
  \<open>7d\<close>; the route \<open>/\<close> is answered with status 200 and HTML.
\<close>

theorem routes_status_200_witness:
  "status (fst (dispatch \<lparr>strftime = (\<lambda>f t. f), isoformat = (\<lambda>t. [])\<rparr> (Trends ''1y'')
      \<lparr>ordinal = 740000, microsecond_of_day = 0\<rparr> (\<lambda>i. 0))) = 200 \<and>
   is_Json (payload (fst (dispatch \<lparr>strftime = (\<lambda>f t. f), isoformat = (\<lambda>t. [])\<rparr> (Trends ''1y'')
      \<lparr>ordinal = 740000, microsecond_of_day = 0\<rparr> (\<lambda>i. 0)))) \<and>
   dispatch \<lparr>strftime = (\<lambda>f t. f), isoformat = (\<lambda>t. [])\<rparr> (Trends ''1y'')
      \<lparr>ordinal = 740000, microsecond_of_day = 0\<rparr> (\<lambda>i. 0) =
   dispatch \<lparr>strftime = (\<lambda>f t. f), isoformat = (\<lambda>t. [])\<rparr> (Trends ''7d'')
      \<lparr>ordinal = 740000, microsecond_of_day = 0\<rparr> (\<lambda>i. 0) \<and>
   status (fst (dispatch \<lparr>strftime = (\<lambda>f t. f), isoformat = (\<lambda>t. [])\<rparr> Home
      \<lparr>ordinal = 740000, microsecond_of_day = 0\<rparr> (\<lambda>i. 0))) = 200 \<and>
   is_Html (payload (fst (dispatch \<lparr>strftime = (\<lambda>f t. f), isoformat = (\<lambda>t. [])\<rparr> Home
      \<lparr>ordinal = 740000, microsecond_of_day = 0\<rparr> (\<lambda>i. 0))))"
proof -
  let ?L = "\<lparr>strftime = (\<lambda>f t. f), isoformat = (\<lambda>t. [])\<rparr>"
  let ?now = "\<lparr>ordinal = 740000, microsecond_of_day = 0\<rparr>"
  have 1: "Trends ''1y'' \<noteq> Home" and 2: "''1y'' \<notin> {''24h'', ''7d'', ''30d'', ''90d''}"
    by simp_all
  from routes_status_200 [of ?L "Trends ''1y''" ?now "\<lambda>i. 0"] 1 2
  have "status (fst (dispatch ?L (Trends ''1y'') ?now (\<lambda>i. 0))) = 200"
    and "is_Json (payload (fst (dispatch ?L (Trends ''1y'') ?now (\<lambda>i. 0))))"
    and "dispatch ?L (Trends ''1y'') ?now (\<lambda>i. 0) = dispatch ?L (Trends ''7d'') ?now (\<lambda>i. 0)"
    by blast+
  moreover from routes_status_200 [of ?L Home ?now "\<lambda>i. 0"]
  have "status (fst (dispatch ?L Home ?now (\<lambda>i. 0))) = 200"
    and "is_Html (payload (fst (dispatch ?L Home ?now (\<lambda>i. 0))))"
    by blast+
  ultimately show ?thesis
    by blast
qed

section \<open>Handlers as functions of the clock and the draws\<close>

lemma advance_apply: "advance n g i = g (i + n)"
  by (simp add: advance_def)

lemma randint_cong: "g1 0 = g2 0 \<Longrightarrow> fst (randint a b g1) = fst (randint a b g2)"
  by (simp add: randint_def draw_def)

lemma random_cong: "g1 0 = g2 0 \<Longrightarrow> fst (random g1) = fst (random g2)"
  by (simp add: random_def draw_def)

lemma uniform_cong: "g1 0 = g2 0 \<Longrightarrow> fst (uniform a b g1) = fst (uniform a b g2)"
  using random_cong [of g1 g2] by (simp add: uniform_def split_beta)

lemma metrics_cong:
  assumes "\<forall>i < 6. g1 i = g2 i"
  shows "fst (get_metrics g1) = fst (get_metrics g2)"
proof -
  have eq: "advance k g1 0 = advance k g2 0" if "k < 6" for k
    using that assms by (simp add: advance_apply)
  have "g1 0 = g2 0"
    using assms by simp
  then have "fst (randint (- 50) 250 g1) = fst (randint (- 50) 250 g2)"
    by (rule randint_cong)
  moreover have "fst (uniform (- float_lit 0.2) (float_lit 0.1) (advance 1 g1)) =
         fst (uniform (- float_lit 0.2) (float_lit 0.1) (advance 1 g2))"
    by (rule uniform_cong) (simp add: eq)
  moreover have "fst (randint 0 30 (advance 2 g1)) = fst (randint 0 30 (advance 2 g2))"
    by (rule randint_cong) (simp add: eq)
  moreover have "fst (randint 100 300 (advance 3 g1)) = fst (randint 100 300 (advance 3 g2))"
    by (rule randint_cong) (simp add: eq)
  moreover have "fst (randint 800 1500 (advance 4 g1)) = fst (randint 800 1500 (advance 4 g2))"
    by (rule randint_cong) (simp add: eq)
  moreover have "fst (uniform (- float_lit 0.3) (float_lit 0.2) (advance 5 g1)) =
         fst (uniform (- float_lit 0.3) (float_lit 0.2) (advance 5 g2))"
    by (rule uniform_cong) (simp add: eq)
  ultimately show ?thesis
    by (simp only: metrics_eval fst_conv)
qed

lemma trends_loop_cong:
  assumes "\<forall>k < 3 * nat (days - i). g1 k = g2 k"
  shows "fst (trends_loop L today days i trends g1) = fst (trends_loop L today days i trends g2)"
  using assms
proof (induction "nat (days - i)" arbitrary: i trends g1 g2)
  case 0
  then have "\<not> i < days" by simp
  then show ?case
    by (simp add: trends_loop_done)
next
  case (Suc n)
  then have lt: "i < days" and n: "n = nat (days - (i + 1))" by linarith+
  from Suc.hyps(2) have d: "3 * nat (days - i) = 3 + 3 * nat (days - (i + 1))"
    using n by linarith
  let ?e = "\<lambda>g. JObj [(''date'', JStr (strftime L ''%b %d'' (minus_days today (days - i - 1)))),
                (''reviews_added'', JInt (fst (randint 30 80 g))),
                (''reviews_removed'', JInt (fst (randint 0 10 (advance 1 g)))),
                (''average_rating'',
                   JFloat (py_round (float_add (float_lit 4.3)
                     (fst (uniform (- float_lit 0.2) (float_lit 0.2) (advance 2 g)))) 2))]"
  have eq: "g1 k = g2 k" if "k < 3" for k
  proof -
    from that d have "k < 3 * nat (days - i)" by linarith
    with Suc.prems show ?thesis by blast
  qed
  have "advance 1 g1 0 = advance 1 g2 0" and "advance 2 g1 0 = advance 2 g2 0"
    using eq [of 1] eq [of 2] by (simp_all only: advance_apply add_0)
  then have "fst (randint 30 80 g1) = fst (randint 30 80 g2)"
    and "fst (randint 0 10 (advance 1 g1)) = fst (randint 0 10 (advance 1 g2))"
    and "fst (uniform (- float_lit 0.2) (float_lit 0.2) (advance 2 g1)) =
         fst (uniform (- float_lit 0.2) (float_lit 0.2) (advance 2 g2))"
    using eq [of 0] by (auto intro: randint_cong uniform_cong)
  then have e: "?e g1 = ?e g2"
    by (simp only:)
  have "\<forall>k < 3 * nat (days - (i + 1)). advance 3 g1 k = advance 3 g2 k"
  proof (intro allI impI)
    fix k
    assume "k < 3 * nat (days - (i + 1))"
    with d have "k + 3 < 3 * nat (days - i)" by linarith
    with Suc.prems have "g1 (k + 3) = g2 (k + 3)" by blast
    then show "advance 3 g1 k = advance 3 g2 k"
      by (simp only: advance_apply)
  qed
  then have ih: "fst (trends_loop L today days (i + 1) (trends @ [?e g1]) (advance 3 g1)) =
      fst (trends_loop L today days (i + 1) (trends @ [?e g1]) (advance 3 g2))"
    by (rule Suc.hyps(1) [OF n])
  have "fst (trends_loop L today days i trends g1) =
      fst (trends_loop L today days (i + 1) (trends @ [?e g1]) (advance 3 g1))"
    by (simp only: trends_loop_step [OF lt])
  also note ih
  also have "fst (trends_loop L today days (i + 1) (trends @ [?e g1]) (advance 3 g2)) =
      fst (trends_loop L today days (i + 1) (trends @ [?e g2]) (advance 3 g2))"
    by (simp only: e)
  also have "\<dots> = fst (trends_loop L today days i trends g2)"
    by (simp only: trends_loop_step [OF lt])
  finally show ?case .
qed

lemma top_loop_cong:
  assumes "\<forall>k < length cs. g1 k = g2 k"
  shows "fst (top_loop cs locations g1) = fst (top_loop cs locations g2)"
  using assms
proof (induction cs arbitrary: locations g1 g2)
  case Nil
  show ?case by simp
next
  case (Cons c cs)
  obtain name city rating reviews where c: "c = (name, city, rating, reviews)"
    by (cases c)
  let ?e = "\<lambda>g. JObj [(''name'', JStr (''Law Firm - '' @ name)),
                (''city'', JStr (city @ '', FL'')),
                (''rating'', JFloat rating),
                (''total_reviews'', JInt reviews),
                (''change'', JInt (fst (randint (- 5) 20 g))),
                (''status'', JStr (if rating \<ge> float_lit 4.5 then ''Excellent''
                                   else if rating \<ge> float_lit 4.0 then ''Good''
                                   else ''Monitor''))]"
  from Cons.prems have "g1 0 = g2 0"
    by simp
  then have "fst (randint (- 5) 20 g1) = fst (randint (- 5) 20 g2)"
    by (rule randint_cong)
  then have e: "?e g1 = ?e g2"
    by (simp only:)
  have "\<forall>k < length cs. advance 1 g1 k = advance 1 g2 k"
  proof (intro allI impI)
    fix k
    assume "k < length cs"
    then have "k + 1 < length (c # cs)" by simp
    with Cons.prems have "g1 (k + 1) = g2 (k + 1)" by blast
    then show "advance 1 g1 k = advance 1 g2 k"
      by (simp only: advance_apply)
  qed
  then have ih: "fst (top_loop cs (locations @ [?e g1]) (advance 1 g1)) =
      fst (top_loop cs (locations @ [?e g1]) (advance 1 g2))"
    by (rule Cons.IH)
  have "fst (top_loop (c # cs) locations g1) =
      fst (top_loop cs (locations @ [?e g1]) (advance 1 g1))"
    by (simp only: c top_loop_Cons)
  also note ih
  also have "fst (top_loop cs (locations @ [?e g1]) (advance 1 g2)) =
      fst (top_loop cs (locations @ [?e g2]) (advance 1 g2))"
    by (simp only: e)
  also have "\<dots> = fst (top_loop (c # cs) locations g2)"
    by (simp only: c top_loop_Cons)
  finally show ?case .
qed

lemma cities_length: "length (take 10 cities) = 10"
  by (simp add: cities_def)

lemma top_loop_prefix: "prefix locations (fst (top_loop cs locations g))"
proof (induction cs arbitrary: locations g)
  case Nil
  show ?case by simp
next
  case (Cons c cs)
  obtain name city rating reviews where c: "c = (name, city, rating, reviews)"
    by (cases c)
  show ?case
    unfolding c top_loop_Cons using Cons.IH by (rule append_prefixD)
qed

lemma top_loop_hd_change:
  "subscript (hd (fst (top_loop ((name, city, rating, reviews) # rest) [] g))) ''change'' =
     Inr (JInt (fst (randint (- 5) 20 g)))"
proof -
  let ?e = "JObj [(''name'', JStr (''Law Firm - '' @ name)),
                (''city'', JStr (city @ '', FL'')),
                (''rating'', JFloat rating),
                (''total_reviews'', JInt reviews),
                (''change'', JInt (fst (randint (- 5) 20 g))),
                (''status'', JStr (if rating \<ge> float_lit 4.5 then ''Excellent''
                                   else if rating \<ge> float_lit 4.0 then ''Good''
                                   else ''Monitor''))]"
  have "prefix ([] @ [?e]) (fst (top_loop rest ([] @ [?e]) (advance 1 g)))"
    by (rule top_loop_prefix)
  then have "prefix [?e] (fst (top_loop ((name, city, rating, reviews) # rest) [] g))"
    by (simp only: top_loop_Cons append_Nil)
  then have "hd (fst (top_loop ((name, city, rating, reviews) # rest) [] g)) = ?e"
    by (auto simp: prefix_def)
  then show ?thesis
    by (simp add: subscript_def)
qed

lemma top_locations_snd: "snd (get_top_locations g) = advance 10 g"
  by (simp add: get_top_locations_def split_beta top_loop_snd cities_length del: length_take)

lemma top_locations_first_change:
  "\<exists>entries. fst (get_top_locations g) = jsonify (JList entries) \<and>
     subscript (hd entries) ''change'' = Inr (JInt (fst (randint (- 5) 20 g)))"
proof -
  obtain rest where "take 10 cities = (''Miami Downtown'', ''Miami'', float_lit 4.8, 1245) # rest"
    by (simp add: cities_def)
  then have "subscript (hd (fst (top_loop (take 10 cities) [] g))) ''change'' =
     Inr (JInt (fst (randint (- 5) 20 g)))"
    by (simp only: top_loop_hd_change)
  with top_response [of g] show ?thesis
    by blast
qed

text \<open>
  Claim C9 says that no handler reads or writes state shared across requests. The random
  source is such state: it is the module-level generator of \<open>random\<close>, one for all
  requests. A request to \<open>/api/locations/top\<close> leaves it changed, and the next request to
  the same route, served from the source the first one left, gets a different response.
\<close>

theorem top_locations_advances_random_source:
  "snd (get_top_locations int) \<noteq> int \<and>
   fst (get_top_locations (snd (get_top_locations int))) \<noteq> fst (get_top_locations int)"
proof
  show "snd (get_top_locations int) \<noteq> int"
  proof
    assume "snd (get_top_locations int) = int"
    then have "advance 10 int = int"
      by (simp only: top_locations_snd)
    then have "advance 10 int 0 = int 0"
      by (simp only:)
    then show False
      by (simp add: advance_def)
  qed
  show "fst (get_top_locations (snd (get_top_locations int))) \<noteq> fst (get_top_locations int)"
  proof
    assume eq: "fst (get_top_locations (snd (get_top_locations int))) = fst (get_top_locations int)"
    from top_locations_first_change [of int] obtain es1 where
      1: "fst (get_top_locations int) = jsonify (JList es1)" and
      c1: "subscript (hd es1) ''change'' = Inr (JInt (fst (randint (- 5) 20 int)))"
      by blast
    from top_locations_first_change [of "advance 10 int"] obtain es2 where
      2: "fst (get_top_locations (advance 10 int)) = jsonify (JList es2)" and
      c2: "subscript (hd es2) ''change'' = Inr (JInt (fst (randint (- 5) 20 (advance 10 int))))"
      by blast
    from eq 1 2 have "jsonify (JList es2) = jsonify (JList es1)"
      by (simp only: top_locations_snd)
    then have "es2 = es1"
      using jsonify_inject by fastforce
    with c1 c2 have "fst (randint (- 5) 20 (advance 10 int)) = fst (randint (- 5) 20 int)"
      by simp
    then show False
      by (simp add: randint_def draw_def advance_def)
  qed
qed

text \<open>
  Claim C9, amended. The response of every handler is determined by its path parameter,
  the clock reading and the values it draws from the random source: two runs of a route
  with the same parameter and clock reading whose random sources agree on the first
  \<open>draws r\<close> raw values give equal responses, whatever the sources hold further on
  (\<open>draws r\<close> is the number of library calls of the route, each taking one raw value). The
  one state shared across requests that a handler reads and writes is the random source:
  a request leaves it advanced by exactly \<open>draws r\<close> values, and a route that draws nothing
  leaves it as it was.
\<close>

theorem handlers_deterministic:
  "((\<forall>i < draws r. g1 i = g2 i) \<longrightarrow> fst (dispatch L r now g1) = fst (dispatch L r now g2)) \<and>
   snd (dispatch L r now g) = advance (draws r) g \<and>
   (draws r = 0 \<longrightarrow> snd (dispatch L r now g) = g)"
proof -
  have det: "fst (dispatch L r now g1) = fst (dispatch L r now g2)"
    if same: "\<forall>i < draws r. g1 i = g2 i"
  proof (cases r)
    case Metrics
    with same have "fst (get_metrics g1) = fst (get_metrics g2)"
      by (intro metrics_cong) (simp add: draws_def)
    with Metrics show ?thesis
      by (simp add: dispatch_def split_beta split: sum.splits)
  next
    case (Trends period)
    with same have "fst (trends_loop L now (period_days period) 0 [] g1) =
        fst (trends_loop L now (period_days period) 0 [] g2)"
      by (intro trends_loop_cong) (simp add: draws_def)
    with Trends show ?thesis
      by (simp add: dispatch_def trends_response)
  next
    case TopLocations
    with same have "fst (top_loop (take 10 cities) [] g1) = fst (top_loop (take 10 cities) [] g2)"
      by (intro top_loop_cong) (simp add: draws_def cities_length del: length_take)
    with TopLocations show ?thesis
      by (simp add: dispatch_def top_response)
  next
    case RecentAlerts
    with same have "fst (random g1) = fst (random g2)"
      by (intro random_cong) (simp add: draws_def)
    with RecentAlerts show ?thesis
      by (simp add: dispatch_def get_recent_alerts_def split_beta)
  qed (simp_all add: dispatch_def)
  have adv: "snd (dispatch L r now g) = advance (draws r) g"
  proof (cases r)
    case Metrics
    then show ?thesis
      by (simp add: dispatch_def draws_def metrics_eval)
  next
    case (Trends period)
    then show ?thesis
      by (simp add: dispatch_def draws_def get_trends_def Let_def split_beta trends_loop_snd)
  next
    case TopLocations
    then show ?thesis
      by (simp add: dispatch_def draws_def get_top_locations_def split_beta top_loop_snd cities_length
          del: length_take)
  next
    case RecentAlerts
    then show ?thesis
      by (simp add: dispatch_def draws_def get_recent_alerts_def split_beta random_snd)
  qed (simp_all add: dispatch_def draws_def advance_0)
  have still: "snd (dispatch L r now g) = g" if "draws r = 0"
    using adv that by (simp add: advance_0)
  from det adv still show ?thesis
    by (intro conjI impI)
qed

text \<open>
  Two random sources that agree on the ten values \<open>/api/locations/top\<close> draws, and differ
  further on, give the same response, and the request leaves the source advanced by ten
  values; a request to \<open>/\<close> draws nothing and leaves the source as it was.
\<close>

theorem handlers_deterministic_witness:
  "fst (dispatch \<lparr>strftime = (\<lambda>f t. f), isoformat = (\<lambda>t. [])\<rparr> TopLocations
      \<lparr>ordinal = 740000, microsecond_of_day = 0\<rparr> (\<lambda>i. int (min i 10))) =
   fst (dispatch \<lparr>strftime = (\<lambda>f t. f), isoformat = (\<lambda>t. [])\<rparr> TopLocations
      \<lparr>ordinal = 740000, microsecond_of_day = 0\<rparr> int) \<and>
   snd (dispatch \<lparr>strftime = (\<lambda>f t. f), isoformat = (\<lambda>t. [])\<rparr> TopLocations
      \<lparr>ordinal = 740000, microsecond_of_day = 0\<rparr> int) = advance 10 int \<and>
   int (min 11 10) \<noteq> int 11 \<and>
   snd (dispatch \<lparr>strftime = (\<lambda>f t. f), isoformat = (\<lambda>t. [])\<rparr> Home
      \<lparr>ordinal = 740000, microsecond_of_day = 0\<rparr> int) = int"
proof -
  let ?L = "\<lparr>strftime = (\<lambda>f t. f), isoformat = (\<lambda>t. [])\<rparr>"
  let ?now = "\<lparr>ordinal = 740000, microsecond_of_day = 0\<rparr>"
  have d: "draws TopLocations = 10"
    by (simp add: draws_def)
  have same: "\<forall>i < draws TopLocations. int (min i 10) = int i"
    unfolding d by simp
  note h = handlers_deterministic [of TopLocations "\<lambda>i. int (min i 10)" int ?L ?now int]
  from h have "(\<forall>i < draws TopLocations. int (min i 10) = int i) \<longrightarrow>
      fst (dispatch ?L TopLocations ?now (\<lambda>i. int (min i 10))) =
      fst (dispatch ?L TopLocations ?now int)"
    by (rule conjunct1)
  from this same have 1: "fst (dispatch ?L TopLocations ?now (\<lambda>i. int (min i 10))) =
      fst (dispatch ?L TopLocations ?now int)"
    by (rule mp)
  from h [THEN conjunct2, THEN conjunct1]
  have "snd (dispatch ?L TopLocations ?now int) = advance (draws TopLocations) int" .
  then have 2: "snd (dispatch ?L TopLocations ?now int) = advance 10 int"
    by (simp only: d)
  have 3: "int (min 11 10) \<noteq> int 11"
    by simp
  have d0: "draws Home = 0"
    by (simp add: draws_def)
  from handlers_deterministic [of Home int int ?L ?now int, THEN conjunct2, THEN conjunct2]
  have "draws Home = 0 \<longrightarrow> snd (dispatch ?L Home ?now int) = int" .
  from this d0 have 4: "snd (dispatch ?L Home ?now int) = int"
    by (rule mp)
  from 1 2 3 4 show ?thesis
    by (intro conjI)
qed

end
